theory Spec2Isabelle
  imports Complex_Main "HOL-Library.Multiset"
begin

section \<open>Growth curves (growthAlgorithm.js)\<close>

text \<open>
  JavaScript numbers are modelled as exact reals, without the rounding, overflow and
  underflow of IEEE-754 doubles; the sigmoid curve is modelled a second time with them
  further below (\<open>calculateSigmoidGrowth_double\<close>). Where the source can produce a
  value that is not a finite number from finite inputs (a division by zero, a logarithm
  of a non-positive number), the model says so explicitly further below.
\<close>

definition calculateSigmoidGrowth :: "real \<Rightarrow> real \<Rightarrow> real \<Rightarrow> real" where
  "calculateSigmoidGrowth currentTime totalDuration maxValue =
     (let k = 0.15;
          midpoint = totalDuration / 2;
          exponential = exp (- k * (currentTime - midpoint));
          sigmoidValue = maxValue / (1 + exponential)
      in sigmoidValue)"

text \<open>The closed form as the specification writes it, with the steepness 0.15.\<close>

definition sigmoid_spec :: "real \<Rightarrow> real \<Rightarrow> real \<Rightarrow> real" where
  "sigmoid_spec t T L = L / (1 + exp (- (15 / 100) * (t - T / 2)))"


subsection \<open>Numbers that are not finite\<close>

text \<open>
  A JavaScript number is a finite value, NaN or an infinity. The type parameter is
  \<open>real\<close> for a general number and \<open>int\<close> for a number known to be integral (a stored
  counter, a result of Math.floor). Signed zeros are not distinguished: a zero divisor
  counts as +0, which is the only zero the divisors of this program (stored counters and
  configured durations) take.
\<close>

datatype 'a jsnum = Num 'a | NaN | PosInf | NegInf

definition jreal :: "int jsnum \<Rightarrow> real jsnum" where
  "jreal x = map_jsnum real_of_int x"

fun jadd :: "real jsnum \<Rightarrow> real jsnum \<Rightarrow> real jsnum" where
  "jadd (Num a) (Num b) = Num (a + b)"
| "jadd NaN _ = NaN"
| "jadd _ NaN = NaN"
| "jadd PosInf NegInf = NaN"
| "jadd NegInf PosInf = NaN"
| "jadd PosInf _ = PosInf"
| "jadd _ PosInf = PosInf"
| "jadd NegInf _ = NegInf"
| "jadd _ NegInf = NegInf"

fun jsub :: "int jsnum \<Rightarrow> int jsnum \<Rightarrow> int jsnum" where
  "jsub (Num a) (Num b) = Num (a - b)"
| "jsub NaN _ = NaN"
| "jsub _ NaN = NaN"
| "jsub PosInf PosInf = NaN"
| "jsub NegInf NegInf = NaN"
| "jsub PosInf _ = PosInf"
| "jsub _ NegInf = PosInf"
| "jsub NegInf _ = NegInf"
| "jsub _ PosInf = NegInf"

fun jmul :: "real jsnum \<Rightarrow> real jsnum \<Rightarrow> real jsnum" where
  "jmul (Num a) (Num b) = Num (a * b)"
| "jmul NaN _ = NaN"
| "jmul _ NaN = NaN"
| "jmul (Num a) PosInf = (if a = 0 then NaN else if 0 < a then PosInf else NegInf)"
| "jmul (Num a) NegInf = (if a = 0 then NaN else if 0 < a then NegInf else PosInf)"
| "jmul PosInf (Num b) = (if b = 0 then NaN else if 0 < b then PosInf else NegInf)"
| "jmul NegInf (Num b) = (if b = 0 then NaN else if 0 < b then NegInf else PosInf)"
| "jmul PosInf PosInf = PosInf"
| "jmul PosInf NegInf = NegInf"
| "jmul NegInf PosInf = NegInf"
| "jmul NegInf NegInf = PosInf"

fun jdiv :: "real jsnum \<Rightarrow> real jsnum \<Rightarrow> real jsnum" where
  "jdiv (Num a) (Num b) =
     (if b = 0 then (if a = 0 then NaN else if 0 < a then PosInf else NegInf)
      else Num (a / b))"
| "jdiv NaN _ = NaN"
| "jdiv _ NaN = NaN"
| "jdiv (Num a) PosInf = Num 0"
| "jdiv (Num a) NegInf = Num 0"
| "jdiv PosInf (Num b) = (if 0 \<le> b then PosInf else NegInf)"
| "jdiv NegInf (Num b) = (if 0 \<le> b then NegInf else PosInf)"
| "jdiv PosInf PosInf = NaN"
| "jdiv PosInf NegInf = NaN"
| "jdiv NegInf PosInf = NaN"
| "jdiv NegInf NegInf = NaN"

fun jexp :: "real jsnum \<Rightarrow> real jsnum" where
  "jexp (Num a) = Num (exp a)"
| "jexp NaN = NaN"
| "jexp PosInf = PosInf"
| "jexp NegInf = Num 0"

fun jlog :: "real jsnum \<Rightarrow> real jsnum" where
  "jlog (Num a) = (if a < 0 then NaN else if a = 0 then NegInf else Num (ln a))"
| "jlog NaN = NaN"
| "jlog PosInf = PosInf"
| "jlog NegInf = NaN"

fun jfloor :: "real jsnum \<Rightarrow> int jsnum" where
  "jfloor (Num a) = Num \<lfloor>a\<rfloor>"
| "jfloor NaN = NaN"
| "jfloor PosInf = PosInf"
| "jfloor NegInf = NegInf"

text \<open>Math.max and Math.min return NaN as soon as one argument is NaN.\<close>

fun jmax :: "('a::linorder) jsnum \<Rightarrow> 'a jsnum \<Rightarrow> 'a jsnum" where
  "jmax (Num a) (Num b) = Num (max a b)"
| "jmax NaN _ = NaN"
| "jmax _ NaN = NaN"
| "jmax PosInf _ = PosInf"
| "jmax _ PosInf = PosInf"
| "jmax NegInf y = y"
| "jmax x NegInf = x"

fun jmin :: "('a::linorder) jsnum \<Rightarrow> 'a jsnum \<Rightarrow> 'a jsnum" where
  "jmin (Num a) (Num b) = Num (min a b)"
| "jmin NaN _ = NaN"
| "jmin _ NaN = NaN"
| "jmin NegInf _ = NegInf"
| "jmin _ NegInf = NegInf"
| "jmin PosInf y = y"
| "jmin x PosInf = x"

text \<open>The comparison \<open>x > y\<close>: false as soon as one side is NaN.\<close>

fun jgt :: "('a::linorder) jsnum \<Rightarrow> 'a jsnum \<Rightarrow> bool" where
  "jgt (Num a) (Num b) = (b < a)"
| "jgt NaN _ = False"
| "jgt _ NaN = False"
| "jgt PosInf PosInf = False"
| "jgt PosInf _ = True"
| "jgt NegInf _ = False"
| "jgt (Num a) PosInf = False"
| "jgt (Num a) NegInf = True"

subsection \<open>IEEE-754 doubles\<close>

text \<open>
  The arithmetic of JavaScript rounds every result to the nearest double, ties to the
  even significand, and to an infinity from \<open>2^1024\<close> on. \<open>nearestDouble\<close> rounds a real to
  a multiple of the spacing of its binade, which is 52 binary places below the leading
  bit, and \<open>2^-1074\<close> for the subnormal numbers; \<open>roundToDouble\<close> adds the overflow.
  \<open>Math.exp\<close> is modelled as correctly rounded. Signed zeros are not distinguished.
\<close>

fun jneg :: "real jsnum \<Rightarrow> real jsnum" where
  "jneg (Num a) = Num (- a)"
| "jneg NaN = NaN"
| "jneg PosInf = NegInf"
| "jneg NegInf = PosInf"

definition pow2 :: "int \<Rightarrow> real" where
  "pow2 e = (if 0 \<le> e then 2 ^ nat e else 1 / 2 ^ nat (- e))"

definition roundTiesToEven :: "real \<Rightarrow> int" where
  "roundTiesToEven x =
     (let f = \<lfloor>x\<rfloor>;
          d = x - real_of_int f
      in if d < 1 / 2 then f else if 1 / 2 < d then f + 1 else if even f then f else f + 1)"

definition binade :: "real \<Rightarrow> int" where
  "binade x = max \<lfloor>log 2 \<bar>x\<bar>\<rfloor> (- 1022)"

definition nearestDouble :: "real \<Rightarrow> real" where
  "nearestDouble x =
     (if x = 0 then 0
      else let q = pow2 (binade x - 52)
           in real_of_int (roundTiesToEven (x / q)) * q)"

definition roundToDouble :: "real \<Rightarrow> real jsnum" where
  "roundToDouble x =
     (let r = nearestDouble x
      in if pow2 1024 \<le> r then PosInf else if r \<le> - pow2 1024 then NegInf else Num r)"

fun toDouble :: "real jsnum \<Rightarrow> real jsnum" where
  "toDouble (Num x) = roundToDouble x"
| "toDouble NaN = NaN"
| "toDouble PosInf = PosInf"
| "toDouble NegInf = NegInf"

definition isDouble :: "real \<Rightarrow> bool" where
  "isDouble x = (roundToDouble x = Num x)"

definition Math_exp :: "real jsnum \<Rightarrow> real jsnum" where
  "Math_exp x = toDouble (jexp x)"

text \<open>
  calculateSigmoidGrowth as it is computed: the literal 0.15 is the nearest double, and
  the quotient, the difference, the product, the exponential, the sum and the final
  quotient are each rounded. \<open>a - b\<close> is \<open>a + (- b)\<close> and \<open>- k * x\<close> is \<open>(- k) * x\<close>.
\<close>

definition calculateSigmoidGrowth_double :: "real \<Rightarrow> real \<Rightarrow> real \<Rightarrow> real jsnum" where
  "calculateSigmoidGrowth_double currentTime totalDuration maxValue =
     (let k = roundToDouble 0.15;
          midpoint = toDouble (jdiv (Num totalDuration) (Num 2));
          exponential = Math_exp (toDouble (jmul (jneg k)
                           (toDouble (jadd (Num currentTime) (jneg midpoint)))));
          sigmoidValue = toDouble (jdiv (Num maxValue) (toDouble (jadd (Num 1) exponential)))
      in sigmoidValue)"

subsection \<open>The other curves and the engagement rate\<close>

definition calculateExponentialGrowth :: "real \<Rightarrow> real \<Rightarrow> real \<Rightarrow> real \<Rightarrow> real jsnum" where
  "calculateExponentialGrowth currentTime totalDuration initialValue maxValue =
     (let growthRate = jdiv (jlog (jdiv (Num maxValue) (Num initialValue))) (Num totalDuration);
          v = jmul (Num initialValue) (jexp (jmul growthRate (Num currentTime)))
      in jmin v (Num maxValue))"

definition calculateEngagementMetrics :: "int \<Rightarrow> int \<Rightarrow> int \<Rightarrow> int \<Rightarrow> real" where
  "calculateEngagementMetrics views likes comments shares =
     (if views = 0 then 0
      else let totalEngagement = likes * 1 + comments * 2 + shares * 3;
               engagementRate = (real_of_int totalEngagement / real_of_int views) * 100
           in min engagementRate 100)"

section \<open>Configuration (config.js)\<close>

text \<open>
  The analytics section of the configuration. \<open>defaultGrowthDurationHours\<close> and
  \<open>defaultLikeRatio\<close> are defined in config.js (72 and 0.05). The other keys are read by
  MetricsCalculator, DataGenerator and AnalyticsService but are not defined in the
  config.js of the repository, so they are parameters of the model. The earlier
  AnalyticsService (second part of growthAlgorithm.js) hardcodes them as 0.1, 0.15, 50,
  10, 310 and the curve sigmoid.
\<close>

record analytics_config =
  defaultGrowthDurationHours :: real
  defaultLikeRatio :: real
  defaultGrowthCurve :: string
  viewVarianceRange :: real
  likeVarianceRange :: real
  maxBotUsersPerBatch :: int
  minViewDuration :: int
  maxViewDuration :: int

definition hardcodedConfig :: analytics_config where
  "hardcodedConfig =
     \<lparr> defaultGrowthDurationHours = 72, defaultLikeRatio = 5 / 100,
       defaultGrowthCurve = ''sigmoid'',
       viewVarianceRange = 1 / 10, likeVarianceRange = 15 / 100,
       maxBotUsersPerBatch = 50, minViewDuration = 10, maxViewDuration = 310 \<rparr>"

text \<open>
  Modelled from the spec: the key \<open>bulkInsertBatchSize\<close> is not defined in config.js;
  the spec gives the batch size of the bulk writes as 100, the value the earlier
  AnalyticsService hardcodes.
\<close>

definition bulkInsertBatchSize :: nat where
  "bulkInsertBatchSize = 100"

section \<open>Simulations (simulationManager.js)\<close>

record simulation =
  targetMediaId :: int
  maxViews :: real
  maxLikes :: real
  likeRatio :: real
  growthDurationHours :: real
  growthCurve :: string
  startTime :: real
  initialViews :: int
  initialLikes :: int

section \<open>Target metrics (metricsCalculator.js)\<close>

definition calculateSigmoidViews :: "real \<Rightarrow> real \<Rightarrow> real \<Rightarrow> int \<Rightarrow> int jsnum" where
  "calculateSigmoidViews elapsedHours durationHours maxV initV =
     (let viewGrowth = maxV - real_of_int initV;
          growthProgress = calculateSigmoidGrowth elapsedHours durationHours viewGrowth
      in jfloor (Num (real_of_int initV + growthProgress)))"

definition calculateExponentialViews :: "real \<Rightarrow> real \<Rightarrow> real \<Rightarrow> int \<Rightarrow> int jsnum" where
  "calculateExponentialViews elapsedHours durationHours maxV initV =
     (let growthRate = jdiv (jlog (jdiv (Num maxV) (Num (real_of_int initV)))) (Num durationHours)
      in jfloor (jmul (Num (real_of_int initV)) (jexp (jmul growthRate (Num elapsedHours)))))"

definition calculateLinearViews :: "real \<Rightarrow> real \<Rightarrow> real \<Rightarrow> int \<Rightarrow> int jsnum" where
  "calculateLinearViews elapsedHours durationHours maxV initV =
     (let viewsPerHour = jdiv (Num (maxV - real_of_int initV)) (Num durationHours)
      in jfloor (jadd (Num (real_of_int initV)) (jmul viewsPerHour (Num elapsedHours))))"

text \<open>
  The first half of calculateTargetMetrics, the target before the random variation:
  \<open>curveViews\<close> is the choice of the curve and \<open>curveLikes\<close> the like ratio with its
  caps. Any curve name other than sigmoid and exponential takes the linear branch.
\<close>

definition curveViews :: "simulation \<Rightarrow> real \<Rightarrow> int jsnum" where
  "curveViews sim elapsedHours =
     (if growthCurve sim = ''sigmoid'' then
        calculateSigmoidViews elapsedHours (growthDurationHours sim) (maxViews sim) (initialViews sim)
      else if growthCurve sim = ''exponential'' then
        calculateExponentialViews elapsedHours (growthDurationHours sim) (maxViews sim) (initialViews sim)
      else
        calculateLinearViews elapsedHours (growthDurationHours sim) (maxViews sim) (initialViews sim))"

definition curveLikes :: "simulation \<Rightarrow> int jsnum \<Rightarrow> real jsnum" where
  "curveLikes sim targetViews =
     (let potentialLikes = jfloor (jmul (jreal targetViews) (Num (likeRatio sim)))
      in jmin (jmin (jreal potentialLikes) (Num (maxLikes sim))) (jreal targetViews))"

text \<open>
  \<open>rv\<close> and \<open>rl\<close> are the two results of Math.random(), in the order of the calls; each
  lies in [0, 1).
\<close>

definition calculateTargetMetrics ::
  "analytics_config \<Rightarrow> simulation \<Rightarrow> real \<Rightarrow> real \<Rightarrow> real \<Rightarrow> int jsnum \<times> int jsnum" where
  "calculateTargetMetrics cfg sim elapsedHours rv rl =
     (let targetViews = curveViews sim elapsedHours;
          targetLikes = curveLikes sim targetViews;
          viewVariance = rv * viewVarianceRange cfg - viewVarianceRange cfg / 2;
          likeVariance = rl * likeVarianceRange cfg - likeVarianceRange cfg / 2;
          targetViews' = jfloor (jmul (jreal targetViews) (Num (1 + viewVariance)));
          targetLikes' = jfloor (jmul targetLikes (Num (1 + likeVariance)))
      in (targetViews', targetLikes'))"

text \<open>adjustMetrics returns finalViews, finalLikes and hasChanges.\<close>

definition adjustMetrics ::
  "int jsnum \<Rightarrow> int jsnum \<Rightarrow> int \<Rightarrow> int \<Rightarrow> int jsnum \<times> int jsnum \<times> bool" where
  "adjustMetrics targetViews targetLikes currentViews currentLikes =
     (let finalViews = jmax targetViews (Num currentViews);
          finalLikes = jmax targetLikes (Num currentLikes);
          finalLikes = jmin finalLikes finalViews
      in (finalViews, finalLikes,
          jgt finalViews (Num currentViews) \<or> jgt finalLikes (Num currentLikes)))"

definition calculateElapsedTime :: "real \<Rightarrow> real \<Rightarrow> real" where
  "calculateElapsedTime now start =
     (let elapsedMs = now - start;
          elapsedHours = elapsedMs / (1000 * 60 * 60)
      in elapsedHours)"

text \<open>
  calculateProgress formats the percentage with one decimal and a percent sign; the model
  keeps the number that is formatted.
\<close>

definition calculateProgress :: "real \<Rightarrow> real \<Rightarrow> real jsnum" where
  "calculateProgress elapsedHours durationHours =
     jmul (jdiv (Num elapsedHours) (Num durationHours)) (Num 100)"

section \<open>The store and the environment\<close>

text \<open>
  The tables of shared/database/models that the analytics engine reads and writes, with
  the columns it uses. The timestamps of the records (createdAt, timestamp) are left out.
  \<open>shareCount\<close> may be absent from a row (the engine reads \<open>shareCount || 0\<close>);
  \<open>v_userId\<close> and \<open>v_userAgent\<close> are nullable columns and hold \<open>None\<close> where the
  JavaScript value is undefined.
\<close>

record post =
  post_id :: int
  viewCount :: int
  likeCount :: int
  commentCount :: int
  shareCount :: "int option"

record user =
  user_id :: int
  isBot :: bool

record view_record =
  v_postId :: int
  v_userId :: "int option"
  v_ipAddress :: string
  v_userAgent :: "string option"
  v_duration :: int

record like_record =
  l_userId :: int
  l_postId :: int

record analytics_entry =
  a_postId :: int
  a_viewCount :: int
  a_likeCount :: int
  a_commentCount :: int
  a_shareCount :: int
  a_engagementRate :: real
  a_growthCurve :: string
  a_elapsedHours :: real
  a_progress :: "real jsnum"

record database =
  posts :: "post list"
  users :: "user list"
  views :: "view_record list"
  likes :: "like_record list"
  analyticsEntries :: "analytics_entry list"

text \<open>
  The world is the store together with what the environment will answer: \<open>random\<close>
  feeds the successive calls of Math.random() (the call returns the fractional part, a
  number in [0, 1)), \<open>clock\<close> the successive calls of Date.now() in milliseconds, and
  \<open>dbFails\<close> says for each successive call of the store whether it rejects.
\<close>

record world =
  tables :: database
  random :: "nat \<Rightarrow> real"
  clock :: "nat \<Rightarrow> real"
  dbFails :: "nat \<Rightarrow> bool"

datatype error =
    TargetMediaNotFound int
  | PostNotFound int
  | PostNotFoundDuringLockedUpdate int
  | DatabaseError
  | TypeError
  | ReferenceError

definition Math_random :: "world \<Rightarrow> real \<times> world" where
  "Math_random w = (frac (random w 0), w\<lparr>random := (\<lambda>n. random w (Suc n))\<rparr>)"

definition Date_now :: "world \<Rightarrow> real \<times> world" where
  "Date_now w = (clock w 0, w\<lparr>clock := (\<lambda>n. clock w (Suc n))\<rparr>)"

definition db_call :: "world \<Rightarrow> bool \<times> world" where
  "db_call w = (dbFails w 0, w\<lparr>dbFails := (\<lambda>n. dbFails w (Suc n))\<rparr>)"

definition Post_findByPk :: "int \<Rightarrow> world \<Rightarrow> (error + post option) \<times> world" where
  "Post_findByPk i w =
     (case db_call w of (rejected, w') \<Rightarrow>
        if rejected then (Inl DatabaseError, w')
        else (Inr (find (\<lambda>p. post_id p = i) (posts (tables w'))), w'))"

definition Post_findAll_in :: "int list \<Rightarrow> world \<Rightarrow> (error + post list) \<times> world" where
  "Post_findAll_in ids w =
     (case db_call w of (rejected, w') \<Rightarrow>
        if rejected then (Inl DatabaseError, w')
        else (Inr (filter (\<lambda>p. post_id p \<in> set ids) (posts (tables w'))), w'))"

definition User_findAll :: "(user \<Rightarrow> bool) \<Rightarrow> world \<Rightarrow> (error + user list) \<times> world" where
  "User_findAll cond w =
     (case db_call w of (rejected, w') \<Rightarrow>
        if rejected then (Inl DatabaseError, w')
        else (Inr (filter cond (users (tables w'))), w'))"

definition Like_findAll_post :: "int \<Rightarrow> world \<Rightarrow> (error + like_record list) \<times> world" where
  "Like_findAll_post pid w =
     (case db_call w of (rejected, w') \<Rightarrow>
        if rejected then (Inl DatabaseError, w')
        else (Inr (filter (\<lambda>l. l_postId l = pid) (likes (tables w'))), w'))"

definition View_bulkCreate :: "view_record list \<Rightarrow> world \<Rightarrow> (error + unit) \<times> world" where
  "View_bulkCreate recs w =
     (case db_call w of (rejected, w') \<Rightarrow>
        if rejected then (Inl DatabaseError, w')
        else (Inr (), w'\<lparr>tables := (tables w')\<lparr>views := views (tables w') @ recs\<rparr>\<rparr>))"

definition Like_bulkCreate :: "like_record list \<Rightarrow> world \<Rightarrow> (error + unit) \<times> world" where
  "Like_bulkCreate recs w =
     (case db_call w of (rejected, w') \<Rightarrow>
        if rejected then (Inl DatabaseError, w')
        else (Inr (), w'\<lparr>tables := (tables w')\<lparr>likes := likes (tables w') @ recs\<rparr>\<rparr>))"

text \<open>
  A counter column is an INTEGER: writing a value that is not a finite number is rejected
  by the store. A successful update returns the two integers it stored.
\<close>

definition Post_update ::
  "int \<Rightarrow> int jsnum \<Rightarrow> int jsnum \<Rightarrow> world \<Rightarrow> (error + int \<times> int) \<times> world" where
  "Post_update pid newViews newLikes w =
     (case db_call w of (rejected, w') \<Rightarrow>
        if rejected then (Inl DatabaseError, w') else
          (case (newViews, newLikes) of
             (Num v, Num l) \<Rightarrow>
               (Inr (v, l), w'\<lparr>tables := (tables w')\<lparr>posts :=
                   map (\<lambda>p. if post_id p = pid then p\<lparr>viewCount := v, likeCount := l\<rparr> else p)
                       (posts (tables w'))\<rparr>\<rparr>)
           | _ \<Rightarrow> (Inl DatabaseError, w')))"

section \<open>Synthetic records (dataGenerator.js)\<close>

text \<open>\<open>[shuffled[i], shuffled[j]] = [shuffled[j], shuffled[i]]\<close>, for indices in range.\<close>

definition swapElements :: "'a list \<Rightarrow> nat \<Rightarrow> nat \<Rightarrow> 'a list" where
  "swapElements shuffled i j =
     (let atJ = shuffled ! j; atI = shuffled ! i in (shuffled[i := atJ])[j := atI])"

text \<open>
  The loop of shuffleArray at index \<open>i\<close>, running down to 1. Math.random() is below 1,
  so the index \<open>j\<close> it draws is at most \<open>i\<close>.
\<close>

fun shuffleLoop :: "nat \<Rightarrow> 'a list \<Rightarrow> world \<Rightarrow> 'a list \<times> world" where
  "shuffleLoop 0 shuffled w = (shuffled, w)"
| "shuffleLoop (Suc i) shuffled w =
     (case Math_random w of
        (r, w') \<Rightarrow>
          (let j = nat \<lfloor>r * (real (Suc i) + 1)\<rfloor>
           in shuffleLoop i (swapElements shuffled (Suc i) j) w'))"

definition shuffleArray :: "'a list \<Rightarrow> world \<Rightarrow> 'a list \<times> world" where
  "shuffleArray array w = shuffleLoop (length array - 1) array w"

text \<open>\<open>xs.slice(0, end)\<close>: a negative end counts from the end of the array.\<close>

definition slice0 :: "'a list \<Rightarrow> int \<Rightarrow> 'a list" where
  "slice0 xs e =
     (if e < 0 then take (nat (max 0 (int (length xs) + e))) xs else take (nat e) xs)"

text \<open>The decimal text of a natural number, as the join of the octets writes it.\<close>

definition digitChar :: "nat \<Rightarrow> char" where
  "digitChar d = ''0123456789'' ! d"

function numberToString :: "nat \<Rightarrow> string" where
  "numberToString n =
     (let q = n div 10; lastDigit = digitChar (n mod 10)
      in if q = 0 then [lastDigit] else numberToString q @ [lastDigit])"
  by pat_completeness auto
termination
  by (relation "measure id") auto

declare numberToString.simps [simp del]

definition randomOctet :: "world \<Rightarrow> nat \<times> world" where
  "randomOctet w = (case Math_random w of (r, w') \<Rightarrow> (nat \<lfloor>r * 256\<rfloor>, w'))"

definition generateRandomIP :: "world \<Rightarrow> string \<times> world" where
  "generateRandomIP w =
     (case randomOctet w of (o1, w1) \<Rightarrow>
      case randomOctet w1 of (o2, w2) \<Rightarrow>
      case randomOctet w2 of (o3, w3) \<Rightarrow>
      case randomOctet w3 of (o4, w4) \<Rightarrow>
        (numberToString o1 @ ''.'' @ numberToString o2 @ ''.'' @ numberToString o3 @ ''.''
           @ numberToString o4, w4))"

definition userAgents :: "string list" where
  "userAgents =
    [''Mozilla/5.0 (Windows NT 10.0; Win64; x64) AppleWebKit/537.36'',
     ''Mozilla/5.0 (Macintosh; Intel Mac OS X 10_15_7) AppleWebKit/537.36'',
     ''Mozilla/5.0 (X11; Linux x86_64) AppleWebKit/537.36'',
     ''Mozilla/5.0 (iPhone; CPU iPhone OS 14_7_1 like Mac OS X) AppleWebKit/605.1.15'',
     ''Mozilla/5.0 (iPad; CPU OS 14_7_1 like Mac OS X) AppleWebKit/605.1.15'',
     ''Mozilla/5.0 (Android 11; Mobile; rv:89.0) Gecko/89.0 Firefox/89.0'']"

definition generateRandomUserAgent :: "world \<Rightarrow> string option \<times> world" where
  "generateRandomUserAgent w =
     (case Math_random w of
        (r, w') \<Rightarrow>
          (let i = nat \<lfloor>r * real (length userAgents)\<rfloor>
           in (if i < length userAgents then Some (userAgents ! i) else None, w')))"

text \<open>
  The loop that builds the view records: \<open>i\<close> is the loop index and \<open>n\<close> the number of
  iterations left. With no selected user, \<open>userIds[i % 0]\<close> is undefined.
\<close>

fun buildViewRecords ::
  "analytics_config \<Rightarrow> int \<Rightarrow> int list \<Rightarrow> nat \<Rightarrow> nat \<Rightarrow> world \<Rightarrow> view_record list \<times> world" where
  "buildViewRecords cfg postId userIds i 0 w = ([], w)"
| "buildViewRecords cfg postId userIds i (Suc n) w =
     (let userId = (if userIds = [] then None else Some (userIds ! (i mod length userIds)))
      in case generateRandomIP w of (ip, w1) \<Rightarrow>
         case generateRandomUserAgent w1 of (ua, w2) \<Rightarrow>
         case Math_random w2 of (r, w3) \<Rightarrow>
           (let rec = \<lparr> v_postId = postId, v_userId = userId, v_ipAddress = ip, v_userAgent = ua,
                        v_duration = \<lfloor>r * real_of_int (maxViewDuration cfg - minViewDuration cfg)\<rfloor>
                                     + minViewDuration cfg \<rparr>
            in case buildViewRecords cfg postId userIds (Suc i) n w3 of
                 (recs, w4) \<Rightarrow> (rec # recs, w4)))"

text \<open>The bulk writes, one batch of \<open>bulkInsertBatchSize\<close> records per call of the store.\<close>

function insertViewBatches :: "nat \<Rightarrow> view_record list \<Rightarrow> world \<Rightarrow> (error + unit) \<times> world" where
  "insertViewBatches i viewRecords w =
     (if i < length viewRecords then
        (case View_bulkCreate (take bulkInsertBatchSize (drop i viewRecords)) w of
           (Inl e, w') \<Rightarrow> (Inl e, w')
         | (Inr _, w') \<Rightarrow> insertViewBatches (i + bulkInsertBatchSize) viewRecords w')
      else (Inr (), w))"
  by pat_completeness auto
termination
  by (relation "measure (\<lambda>(i, viewRecords, w). length viewRecords - i)")
     (auto simp: bulkInsertBatchSize_def)

declare insertViewBatches.simps [simp del]

text \<open>
  The selection at the start of generateSyntheticViews: shuffle the bot users, keep at
  most \<open>min(count, maxBotUsersPerBatch)\<close> of them, and take their ids.
\<close>

definition selectViewers :: "analytics_config \<Rightarrow> int \<Rightarrow> user list \<Rightarrow> world \<Rightarrow> int list \<times> world" where
  "selectViewers cfg cnt allBotUsers w =
     (case shuffleArray allBotUsers w of
        (shuffledUsers, w') \<Rightarrow>
          (let botUsers = slice0 shuffledUsers (min cnt (maxBotUsersPerBatch cfg))
           in (map user_id botUsers, w')))"

definition generateSyntheticViews ::
  "analytics_config \<Rightarrow> int \<Rightarrow> int \<Rightarrow> world \<Rightarrow> (error + unit) \<times> world" where
  "generateSyntheticViews cfg postId cnt w =
     (case User_findAll isBot w of
        (Inl e, w0) \<Rightarrow> (Inl e, w0)
      | (Inr allBotUsers, w0) \<Rightarrow>
          (case selectViewers cfg cnt allBotUsers w0 of
             (userIds, w1) \<Rightarrow>
               (case buildViewRecords cfg postId userIds 0 (nat cnt) w1 of
                  (viewRecords, w2) \<Rightarrow> insertViewBatches 0 viewRecords w2)))"

text \<open>The selection of generateSyntheticLikes: shuffle, then keep at most count users.\<close>

definition selectLikers :: "int \<Rightarrow> user list \<Rightarrow> world \<Rightarrow> user list \<times> world" where
  "selectLikers cnt allAvailableBotUsers w =
     (case shuffleArray allAvailableBotUsers w of
        (shuffledUsers, w') \<Rightarrow> (slice0 shuffledUsers cnt, w'))"

definition generateSyntheticLikes ::
  "int \<Rightarrow> int \<Rightarrow> int set \<Rightarrow> world \<Rightarrow> (error + nat) \<times> world" where
  "generateSyntheticLikes postId cnt existingLikedUserIds w =
     (case User_findAll (\<lambda>u. isBot u \<and> user_id u \<notin> existingLikedUserIds) w of
        (Inl e, w0) \<Rightarrow> (Inl e, w0)
      | (Inr allAvailableBotUsers, w0) \<Rightarrow>
          (case selectLikers cnt allAvailableBotUsers w0 of
             (availableBotUsers, w1) \<Rightarrow>
               (let likeRecords = map (\<lambda>u. \<lparr> l_userId = user_id u, l_postId = postId \<rparr>)
                                      availableBotUsers
                in if 0 < length likeRecords then
                     (case Like_bulkCreate likeRecords w1 of
                        (Inl e, w2) \<Rightarrow> (Inl e, w2)
                      | (Inr _, w2) \<Rightarrow> (Inr (length likeRecords), w2))
                   else (Inr (length likeRecords), w1))))"

definition createAnalyticsEntry :: "analytics_entry \<Rightarrow> world \<Rightarrow> (error + unit) \<times> world" where
  "createAnalyticsEntry entry w =
     (case db_call w of (rejected, w') \<Rightarrow>
        if rejected then (Inl DatabaseError, w') else
          (Inr (), w'\<lparr>tables := (tables w')\<lparr>analyticsEntries :=
                         analyticsEntries (tables w') @ [entry]\<rparr>\<rparr>))"

section \<open>The registry of simulations (simulationManager.js)\<close>

text \<open>
  \<open>activeSimulations\<close> is a JavaScript Map: it iterates in insertion order, and setting
  a key that is present keeps its position.
\<close>

type_synonym registry = "(int \<times> simulation) list"

fun Map_set :: "int \<Rightarrow> simulation \<Rightarrow> registry \<Rightarrow> registry" where
  "Map_set k v [] = [(k, v)]"
| "Map_set k v ((k', v') # m) = (if k' = k then (k, v) # m else (k', v') # Map_set k v m)"

definition Map_has :: "int \<Rightarrow> registry \<Rightarrow> bool" where
  "Map_has k m = (k \<in> set (map fst m))"

definition Map_delete :: "int \<Rightarrow> registry \<Rightarrow> registry" where
  "Map_delete k m = filter (\<lambda>kv. fst kv \<noteq> k) m"

record manager_config =
  m_targetMediaId :: int
  m_maxViews :: real
  m_maxLikes :: real
  m_likeRatio :: real
  m_growthDurationHours :: real
  m_growthCurve :: string
  m_initialViews :: "int option"
  m_initialLikes :: "int option"

definition startSimulation ::
  "manager_config \<Rightarrow> registry \<Rightarrow> world \<Rightarrow> simulation \<times> registry \<times> world" where
  "startSimulation config reg w =
     (case Date_now w of
        (now, w') \<Rightarrow>
          (let sim = \<lparr> targetMediaId = m_targetMediaId config,
                       maxViews = m_maxViews config,
                       maxLikes = m_maxLikes config,
                       likeRatio = m_likeRatio config,
                       growthDurationHours = m_growthDurationHours config,
                       growthCurve = m_growthCurve config,
                       startTime = now,
                       initialViews = (case m_initialViews config of None \<Rightarrow> 0 | Some v \<Rightarrow> v),
                       initialLikes = (case m_initialLikes config of None \<Rightarrow> 0 | Some l \<Rightarrow> l) \<rparr>
           in (sim, Map_set (m_targetMediaId config) sim reg, w')))"

definition stopSimulation :: "int \<Rightarrow> registry \<Rightarrow> bool \<times> registry" where
  "stopSimulation mediaId reg =
     (if Map_has mediaId reg then (True, Map_delete mediaId reg) else (False, reg))"

definition getSimulation :: "int \<Rightarrow> registry \<Rightarrow> simulation option" where
  "getSimulation mediaId reg = map_of reg mediaId"

definition getActiveSimulationIds :: "registry \<Rightarrow> int list" where
  "getActiveSimulationIds reg = map fst reg"

definition isSimulationComplete :: "simulation \<Rightarrow> world \<Rightarrow> bool \<times> world" where
  "isSimulationComplete sim w =
     (case Date_now w of
        (now, w') \<Rightarrow>
          (let elapsedMs = now - startTime sim;
               elapsedHours = elapsedMs / (1000 * 60 * 60)
           in (growthDurationHours sim \<le> elapsedHours, w')))"

section \<open>The analytics service (analyticsService.js)\<close>

record start_config =
  c_targetMediaId :: int
  c_maxViews :: real
  c_maxLikes :: "real option"
  c_likeRatio :: "real option"
  c_growthDurationHours :: "real option"
  c_growthCurve :: "string option"

text \<open>\<open>maxLikes || d\<close>: the default replaces an absent value and also the value 0.\<close>

definition or_default :: "real option \<Rightarrow> real \<Rightarrow> real" where
  "or_default x d = (case x of None \<Rightarrow> d | Some v \<Rightarrow> if v = 0 then d else v)"

definition startViralSimulation ::
  "analytics_config \<Rightarrow> start_config \<Rightarrow> registry \<Rightarrow> world
     \<Rightarrow> (error + simulation) \<times> registry \<times> world" where
  "startViralSimulation cfg config reg w =
     (let likeRatio = (case c_likeRatio config of None \<Rightarrow> defaultLikeRatio cfg | Some x \<Rightarrow> x);
          growthDurationHours = (case c_growthDurationHours config of
                                   None \<Rightarrow> defaultGrowthDurationHours cfg | Some x \<Rightarrow> x);
          growthCurve = (case c_growthCurve config of
                           None \<Rightarrow> defaultGrowthCurve cfg | Some x \<Rightarrow> x)
      in case Post_findByPk (c_targetMediaId config) w of
           (Inl e, w') \<Rightarrow> (Inl e, reg, w')
         | (Inr None, w') \<Rightarrow> (Inl (TargetMediaNotFound (c_targetMediaId config)), reg, w')
         | (Inr (Some targetPost), w') \<Rightarrow>
             (case startSimulation
                     \<lparr> m_targetMediaId = c_targetMediaId config,
                       m_maxViews = c_maxViews config,
                       m_maxLikes = or_default (c_maxLikes config)
                          (real_of_int \<lfloor>c_maxViews config * defaultLikeRatio cfg\<rfloor>),
                       m_likeRatio = likeRatio,
                       m_growthDurationHours = growthDurationHours,
                       m_growthCurve = growthCurve,
                       m_initialViews = Some (viewCount targetPost),
                       m_initialLikes = Some (likeCount targetPost) \<rparr> reg w' of
                (sim, reg', w'') \<Rightarrow> (Inr sim, reg', w'')))"

text \<open>
  Awaiting a call of the store and continuing with its result: an exception ends the
  sequence and is passed on.
\<close>

definition andThen ::
  "(error + 'a) \<times> world \<Rightarrow> ('a \<Rightarrow> world \<Rightarrow> (error + 'b) \<times> world) \<Rightarrow> (error + 'b) \<times> world" where
  "andThen r f = (case r of (Inl e, w) \<Rightarrow> (Inl e, w) | (Inr x, w) \<Rightarrow> f x w)"

definition beginTransaction :: "world \<Rightarrow> (error + unit) \<times> world" where
  "beginTransaction w =
     (case db_call w of (rejected, w') \<Rightarrow>
        if rejected then (Inl DatabaseError, w') else (Inr (), w'))"

definition commit :: "world \<Rightarrow> (error + unit) \<times> world" where
  "commit w =
     (case db_call w of (rejected, w') \<Rightarrow>
        if rejected then (Inl DatabaseError, w') else (Inr (), w'))"

text \<open>
  The body of the try block of applyMetricsUpdate, from the locked read to the commit.
  The synthetic records are generated after the counters are stored, so the numbers of
  new views and likes are then differences of stored integers.
\<close>

definition applyMetricsUpdateBody ::
  "analytics_config \<Rightarrow> post \<Rightarrow> int jsnum \<Rightarrow> int jsnum \<Rightarrow> simulation \<Rightarrow> real \<Rightarrow> world
     \<Rightarrow> (error + unit) \<times> world" where
  "applyMetricsUpdateBody cfg post finalViews finalLikes sim elapsedHours w =
     andThen (Post_findByPk (post_id post) w) (\<lambda>found w1.
       case found of
         None \<Rightarrow> (Inl (PostNotFoundDuringLockedUpdate (post_id post)), w1)
       | Some lockedPost \<Rightarrow>
           (let adjustedViews = jmax finalViews (Num (viewCount lockedPost));
                adjustedLikes = jmax finalLikes (Num (likeCount lockedPost));
                finalLikesAdjusted = jmin adjustedLikes adjustedViews;
                newViews = jsub adjustedViews (Num (viewCount lockedPost));
                newLikes = jsub finalLikesAdjusted (Num (likeCount lockedPost))
            in andThen (Post_update (post_id lockedPost) adjustedViews finalLikesAdjusted w1)
                 (\<lambda>stored w2.
                    let storedViews = fst stored;
                        storedLikes = snd stored;
                        shares = (case shareCount lockedPost of None \<Rightarrow> 0 | Some s \<Rightarrow> s);
                        engagementRate = calculateEngagementMetrics storedViews storedLikes
                                           (commentCount lockedPost) shares
                    in andThen (createAnalyticsEntry
                                  \<lparr> a_postId = post_id post,
                                    a_viewCount = storedViews,
                                    a_likeCount = storedLikes,
                                    a_commentCount = commentCount lockedPost,
                                    a_shareCount = shares,
                                    a_engagementRate = engagementRate,
                                    a_growthCurve = growthCurve sim,
                                    a_elapsedHours = elapsedHours,
                                    a_progress = calculateProgress elapsedHours
                                                   (growthDurationHours sim) \<rparr> w2)
                         (\<lambda>_ w3.
                            andThen (if jgt newViews (Num 0)
                                     then generateSyntheticViews cfg (post_id post)
                                            (storedViews - viewCount lockedPost) w3
                                     else (Inr (), w3))
                              (\<lambda>_ w4.
                                 andThen (if jgt newLikes (Num 0)
                                          then andThen (Like_findAll_post (post_id post) w4)
                                                 (\<lambda>existingLikes w5.
                                                    generateSyntheticLikes (post_id post)
                                                      (storedLikes - likeCount lockedPost)
                                                      (set (map l_userId existingLikes)) w5)
                                          else (Inr 0, w4))
                                   (\<lambda>_ w6. commit w6))))))"

text \<open>
  applyMetricsUpdate opens the transaction (outside the try block), runs the body, and on
  an exception rolls the tables back to their state at the start and rethrows. The
  rollback itself is taken to succeed.
\<close>

definition applyMetricsUpdate ::
  "analytics_config \<Rightarrow> post \<Rightarrow> int jsnum \<Rightarrow> int jsnum \<Rightarrow> simulation \<Rightarrow> real \<Rightarrow> world
     \<Rightarrow> (error + unit) \<times> world" where
  "applyMetricsUpdate cfg post finalViews finalLikes sim elapsedHours w =
     (case beginTransaction w of
        (Inl e, w0) \<Rightarrow> (Inl e, w0)
      | (Inr _, w0) \<Rightarrow>
          (case applyMetricsUpdateBody cfg post finalViews finalLikes sim elapsedHours w0 of
             (Inl e, w') \<Rightarrow> (Inl e, w'\<lparr>tables := tables w0\<rparr>)
           | (Inr u, w') \<Rightarrow> (Inr u, w')))"

text \<open>
  updateSingleSimulation reads the clock once for the completion check and once for the
  elapsed hours, then draws the two random numbers of the variation. The three shapes of
  its result and of an entry of the result list: the simulation has reached its
  duration, the update went through, or the target failed. The text fields (message,
  formatted progress) are left out; \<open>progress\<close> is the percentage before formatting.
\<close>

datatype update_result =
    Completion (r_mediaId: int)
  | Update (r_mediaId: int) (currentViews: "int jsnum") (currentLikes: "int jsnum")
      (progress: "real jsnum") (changes_views: "int jsnum") (changes_likes: "int jsnum")
  | Failure (r_mediaId: int) (r_error: error)

fun success :: "update_result \<Rightarrow> bool" where
  "success (Completion _) = True"
| "success (Update _ _ _ _ _ _) = True"
| "success (Failure _ _) = False"

fun isComplete :: "update_result \<Rightarrow> bool" where
  "isComplete (Completion _) = True"
| "isComplete (Update _ _ _ _ _ _) = False"
| "isComplete (Failure _ _) = False"

definition updateSingleSimulation ::
  "analytics_config \<Rightarrow> int \<Rightarrow> simulation \<Rightarrow> post option \<Rightarrow> world
     \<Rightarrow> (error + update_result) \<times> world" where
  "updateSingleSimulation cfg mediaId sim preloadedPost w =
     (case isSimulationComplete sim w of
        (True, w1) \<Rightarrow> (Inr (Completion mediaId), w1)
      | (False, w1) \<Rightarrow>
          (case (case preloadedPost of
                   Some p \<Rightarrow> (Inr (Some p), w1)
                 | None \<Rightarrow> Post_findByPk mediaId w1) of
             (Inl e, w2) \<Rightarrow> (Inl e, w2)
           | (Inr None, w2) \<Rightarrow> (Inl (PostNotFound mediaId), w2)
           | (Inr (Some post), w2) \<Rightarrow>
               (case Date_now w2 of (now, w3) \<Rightarrow>
                case Math_random w3 of (rv, w4) \<Rightarrow>
                case Math_random w4 of (rl, w5) \<Rightarrow>
                  (let elapsedHours = calculateElapsedTime now (startTime sim);
                       (targetViews, targetLikes) =
                          calculateTargetMetrics cfg sim elapsedHours rv rl;
                       (finalViews, finalLikes, hasChanges) =
                          adjustMetrics targetViews targetLikes (viewCount post) (likeCount post);
                       res = Update mediaId finalViews finalLikes
                               (calculateProgress elapsedHours (growthDurationHours sim))
                               (if hasChanges then jsub finalViews (Num (viewCount post)) else Num 0)
                               (if hasChanges then jsub finalLikes (Num (likeCount post)) else Num 0)
                   in if hasChanges then
                        (case applyMetricsUpdate cfg post finalViews finalLikes sim elapsedHours w5 of
                           (Inl e, w6) \<Rightarrow> (Inl e, w6)
                         | (Inr _, w6) \<Rightarrow> (Inr res, w6))
                      else (Inr res, w5)))))"

text \<open>
  The loop of updateSimulations over the ids that were active when the pass began.
  \<open>postsMap.get\<close> finds the last fetched row with the id. An exception of one target is
  caught and becomes its entry of the result list.
\<close>

fun updateLoop ::
  "analytics_config \<Rightarrow> int list \<Rightarrow> post list \<Rightarrow> registry \<Rightarrow> world
     \<Rightarrow> update_result list \<times> registry \<times> world" where
  "updateLoop cfg [] fetched reg w = ([], reg, w)"
| "updateLoop cfg (mediaId # mediaIds) fetched reg w =
     (case (case find (\<lambda>p. post_id p = mediaId) (rev fetched) of
              None \<Rightarrow> (Inl (PostNotFound mediaId), w)
            | Some post \<Rightarrow>
                (case getSimulation mediaId reg of
                   None \<Rightarrow> (case Date_now w of (now, w') \<Rightarrow> (Inl TypeError, w'))
                 | Some sim \<Rightarrow> updateSingleSimulation cfg mediaId sim (Some post) w)) of
        (Inl e, w1) \<Rightarrow>
          (case updateLoop cfg mediaIds fetched reg w1 of
             (results, reg', w') \<Rightarrow> (Failure mediaId e # results, reg', w'))
      | (Inr result, w1) \<Rightarrow>
          (let reg1 = (if isComplete result then snd (stopSimulation mediaId reg) else reg)
           in case updateLoop cfg mediaIds fetched reg1 w1 of
                (results, reg', w') \<Rightarrow> (result # results, reg', w')))"

definition updateSimulations ::
  "analytics_config \<Rightarrow> registry \<Rightarrow> world \<Rightarrow> (error + update_result list) \<times> registry \<times> world" where
  "updateSimulations cfg reg w =
     (let mediaIds = getActiveSimulationIds reg
      in if length mediaIds = 0 then (Inr [], reg, w)
         else (case Post_findAll_in mediaIds w of
                 (Inl e, w') \<Rightarrow> (Inl e, reg, w')
               | (Inr fetched, w') \<Rightarrow>
                   (case updateLoop cfg mediaIds fetched reg w' of
                      (results, reg', w'') \<Rightarrow> (Inr results, reg', w''))))"

text \<open>
  What one target contributes to a pass that has fetched the posts \<open>fetched\<close> and reaches
  the target with the registry \<open>reg\<close> in the world \<open>w\<close>: its entry of the result list,
  and the registry and the world the pass goes on with. The entry is a failure when the
  target's post was not fetched or its update raised, and otherwise what
  updateSingleSimulation returned for it.
\<close>

definition targetOutcome ::
  "analytics_config \<Rightarrow> post list \<Rightarrow> int \<Rightarrow> registry \<Rightarrow> world
     \<Rightarrow> update_result \<Rightarrow> registry \<Rightarrow> world \<Rightarrow> bool" where
  "targetOutcome cfg fetched mediaId reg w entry reg' w' =
     (case find (\<lambda>p. post_id p = mediaId) (rev fetched) of
        None \<Rightarrow> entry = Failure mediaId (PostNotFound mediaId) \<and> reg' = reg \<and> w' = w
      | Some post \<Rightarrow>
          (case getSimulation mediaId reg of
             None \<Rightarrow> entry = Failure mediaId TypeError \<and> reg' = reg \<and> w' = snd (Date_now w)
           | Some sim \<Rightarrow>
               (case updateSingleSimulation cfg mediaId sim (Some post) w of
                  (Inl e, w1) \<Rightarrow> entry = Failure mediaId e \<and> reg' = reg \<and> w' = w1
                | (Inr result, w1) \<Rightarrow>
                    entry = result \<and> w' = w1
                    \<and> reg' = (if isComplete result then snd (stopSimulation mediaId reg)
                               else reg))))"

section \<open>Predicates on the generated records\<close>



section \<open>Example data\<close>

definition examplePost :: post where
  "examplePost = \<lparr> post_id = 1, viewCount = 100, likeCount = 5, commentCount = 2,
                    shareCount = Some 1 \<rparr>"

definition exampleWorld :: world where
  "exampleWorld =
     \<lparr> tables = \<lparr> posts = [examplePost],
                  users = [\<lparr> user_id = 1, isBot = True \<rparr>, \<lparr> user_id = 2, isBot = True \<rparr>,
                           \<lparr> user_id = 3, isBot = True \<rparr>, \<lparr> user_id = 4, isBot = False \<rparr>],
                  views = [],
                  likes = [\<lparr> l_userId = 1, l_postId = 1 \<rparr>],
                  analyticsEntries = [] \<rparr>,
       random = (\<lambda>n. 1 / 2),
       clock = (\<lambda>n. 43200000),
       dbFails = (\<lambda>n. False) \<rparr>"

definition likesAboveViewsPost :: post where
  "likesAboveViewsPost = \<lparr> post_id = 1, viewCount = 10, likeCount = 20, commentCount = 0,
                            shareCount = None \<rparr>"

definition likesAboveViewsWorld :: world where
  "likesAboveViewsWorld = exampleWorld\<lparr>tables := (tables exampleWorld)\<lparr>posts := [likesAboveViewsPost]\<rparr>\<rparr>"

definition exampleSimulation :: simulation where
  "exampleSimulation =
     \<lparr> targetMediaId = 1, maxViews = 140, maxLikes = 50, likeRatio = 5 / 100,
       growthDurationHours = 24, growthCurve = ''linear'', startTime = 0,
       initialViews = 100, initialLikes = 5 \<rparr>"

definition lowTargetSimulation :: simulation where
  "lowTargetSimulation =
     \<lparr> targetMediaId = 1, maxViews = 20, maxLikes = 50, likeRatio = 5 / 100,
       growthDurationHours = 24, growthCurve = ''linear'', startTime = 0,
       initialViews = 4, initialLikes = 0 \<rparr>"

definition smallTargetSimulation :: simulation where
  "smallTargetSimulation =
     \<lparr> targetMediaId = 1, maxViews = 20, maxLikes = 50, likeRatio = 5 / 100,
       growthDurationHours = 2, growthCurve = ''linear'', startTime = 0,
       initialViews = 0, initialLikes = 0 \<rparr>"

section \<open>The earlier analytics service (second part of growthAlgorithm.js)\<close>

text \<open>
  growthAlgorithm.js also holds the AnalyticsService from before it was split into
  SimulationManager, MetricsCalculator and DataGenerator. It has the same methods with
  the constants written in place; the suffix \<open>_v1\<close> tells its methods apart.
\<close>

fun buildViewRecords_v1 ::
  "int \<Rightarrow> int list \<Rightarrow> nat \<Rightarrow> nat \<Rightarrow> world \<Rightarrow> view_record list \<times> world" where
  "buildViewRecords_v1 postId userIds i 0 w = ([], w)"
| "buildViewRecords_v1 postId userIds i (Suc n) w =
     (let userId = (if userIds = [] then None else Some (userIds ! (i mod length userIds)))
      in case generateRandomIP w of (ip, w1) \<Rightarrow>
         case generateRandomUserAgent w1 of (ua, w2) \<Rightarrow>
         case Math_random w2 of (r, w3) \<Rightarrow>
           (let rec = \<lparr> v_postId = postId, v_userId = userId, v_ipAddress = ip, v_userAgent = ua,
                        v_duration = \<lfloor>r * 300\<rfloor> + 10 \<rparr>
            in case buildViewRecords_v1 postId userIds (Suc i) n w3 of
                 (recs, w4) \<Rightarrow> (rec # recs, w4)))"

function insertViewBatches_v1 :: "nat \<Rightarrow> view_record list \<Rightarrow> world \<Rightarrow> (error + unit) \<times> world" where
  "insertViewBatches_v1 i viewRecords w =
     (if i < length viewRecords then
        (case View_bulkCreate (take 100 (drop i viewRecords)) w of
           (Inl e, w') \<Rightarrow> (Inl e, w')
         | (Inr _, w') \<Rightarrow> insertViewBatches_v1 (i + 100) viewRecords w')
      else (Inr (), w))"
  by pat_completeness auto
termination
  by (relation "measure (\<lambda>(i, viewRecords, w). length viewRecords - i)") auto

declare insertViewBatches_v1.simps [simp del]

definition generateSyntheticViews_v1 :: "int \<Rightarrow> int \<Rightarrow> world \<Rightarrow> (error + unit) \<times> world" where
  "generateSyntheticViews_v1 postId cnt w =
     (case User_findAll isBot w of
        (Inl e, w0) \<Rightarrow> (Inl e, w0)
      | (Inr allBotUsers, w0) \<Rightarrow>
          (case shuffleArray allBotUsers w0 of
             (shuffledUsers, w1) \<Rightarrow>
               (let botUsers = slice0 shuffledUsers (min cnt 50);
                    userIds = map user_id botUsers
                in case buildViewRecords_v1 postId userIds 0 (nat cnt) w1 of
                     (viewRecords, w2) \<Rightarrow> insertViewBatches_v1 0 viewRecords w2)))"

definition generateSyntheticLikes_v1 :: "int \<Rightarrow> int \<Rightarrow> world \<Rightarrow> (error + unit) \<times> world" where
  "generateSyntheticLikes_v1 postId cnt w =
     andThen (Like_findAll_post postId w) (\<lambda>existingLikes w0.
       let likedUserIds = set (map l_userId existingLikes)
       in andThen (User_findAll (\<lambda>u. isBot u \<and> user_id u \<notin> likedUserIds) w0)
            (\<lambda>allAvailableBotUsers w1.
               case shuffleArray allAvailableBotUsers w1 of
                 (shuffledUsers, w2) \<Rightarrow>
                   (let availableBotUsers = slice0 shuffledUsers cnt;
                        likeRecords = map (\<lambda>u. \<lparr> l_userId = user_id u, l_postId = postId \<rparr>)
                                          availableBotUsers
                    in if 0 < length likeRecords then Like_bulkCreate likeRecords w2
                       else (Inr (), w2))))"

text \<open>
  The try block of the earlier updateSingleSimulation. It declares \<open>finalViews\<close>,
  \<open>finalLikesAdjusted\<close>, \<open>newViews\<close> and \<open>newLikes\<close> with \<open>const\<close>, so they are local
  to the block. \<open>lockedPost.update\<close> sets the new counts on the row object it is called
  on, and \<open>newViews\<close> and \<open>newLikes\<close> are computed after it, from that object: they
  are the written counts minus themselves, so the earlier service asks for no
  synthetic record here.
\<close>

definition lockedUpdate_v1 ::
  "int \<Rightarrow> int jsnum \<Rightarrow> int jsnum \<Rightarrow> simulation \<Rightarrow> real \<Rightarrow> world \<Rightarrow> (error + unit) \<times> world" where
  "lockedUpdate_v1 mediaId targetViews targetLikes sim elapsedHours w =
     andThen (Post_findByPk mediaId w) (\<lambda>found w1.
       case found of
         None \<Rightarrow> (Inl (PostNotFoundDuringLockedUpdate mediaId), w1)
       | Some lockedPost \<Rightarrow>
           (let finalViews = jmax targetViews (Num (viewCount lockedPost));
                finalLikes = jmax targetLikes (Num (likeCount lockedPost));
                finalLikesAdjusted = jmin finalLikes finalViews
            in andThen (Post_update (post_id lockedPost) finalViews finalLikesAdjusted w1)
                 (\<lambda>stored w2.
                    let storedViews = fst stored;
                        storedLikes = snd stored;
                        updatedPost = lockedPost\<lparr>viewCount := storedViews,
                                                  likeCount := storedLikes\<rparr>;
                        shares = (case shareCount updatedPost of None \<Rightarrow> 0 | Some s \<Rightarrow> s);
                        engagementRate = calculateEngagementMetrics storedViews storedLikes
                                           (commentCount updatedPost) shares
                    in andThen (createAnalyticsEntry
                                  \<lparr> a_postId = mediaId,
                                    a_viewCount = storedViews,
                                    a_likeCount = storedLikes,
                                    a_commentCount = commentCount updatedPost,
                                    a_shareCount = shares,
                                    a_engagementRate = engagementRate,
                                    a_growthCurve = growthCurve sim,
                                    a_elapsedHours = elapsedHours,
                                    a_progress = jmul (jdiv (Num elapsedHours)
                                                   (Num (growthDurationHours sim))) (Num 100) \<rparr> w2)
                         (\<lambda>_ w3.
                            let newViews = storedViews - viewCount updatedPost
                            in andThen (if 0 < newViews
                                        then generateSyntheticViews_v1 mediaId newViews w3
                                        else (Inr (), w3))
                                 (\<lambda>_ w4.
                                    let newLikes = storedLikes - likeCount updatedPost
                                    in andThen (if 0 < newLikes
                                                then generateSyntheticLikes_v1 mediaId newLikes w4
                                                else (Inr (), w4))
                                         (\<lambda>_ w5. commit w5))))))"

text \<open>
  After the try block the earlier updateSingleSimulation builds its result from
  \<open>finalViews\<close>, \<open>finalLikesAdjusted\<close>, \<open>newViews\<close> and \<open>newLikes\<close>, which are not in
  scope there: evaluating the first of them raises a ReferenceError.
\<close>

definition updateSingleSimulation_v1 ::
  "int \<Rightarrow> simulation \<Rightarrow> post option \<Rightarrow> world \<Rightarrow> (error + update_result) \<times> world" where
  "updateSingleSimulation_v1 mediaId sim preloadedPost w =
     (case Date_now w of (now, w1) \<Rightarrow>
        (let elapsedMs = now - startTime sim;
             elapsedHours = elapsedMs / (1000 * 60 * 60)
         in if growthDurationHours sim \<le> elapsedHours then (Inr (Completion mediaId), w1)
            else
              (case (case preloadedPost of
                       Some p \<Rightarrow> (Inr (Some p), w1)
                     | None \<Rightarrow> Post_findByPk mediaId w1) of
                 (Inl e, w2) \<Rightarrow> (Inl e, w2)
               | (Inr None, w2) \<Rightarrow> (Inl (PostNotFound mediaId), w2)
               | (Inr (Some post), w2) \<Rightarrow>
                   (let targetViews =
                          (if growthCurve sim = ''sigmoid'' then
                             (let viewGrowth = maxViews sim - real_of_int (initialViews sim);
                                  growthProgress = calculateSigmoidGrowth elapsedHours
                                                     (growthDurationHours sim) viewGrowth
                              in jfloor (Num (real_of_int (initialViews sim) + growthProgress)))
                           else if growthCurve sim = ''exponential'' then
                             (let growthRate = jdiv (jlog (jdiv (Num (maxViews sim))
                                                       (Num (real_of_int (initialViews sim)))))
                                                 (Num (growthDurationHours sim))
                              in jfloor (jmul (Num (real_of_int (initialViews sim)))
                                              (jexp (jmul growthRate (Num elapsedHours)))))
                           else
                             (let viewsPerHour = jdiv (Num (maxViews sim - real_of_int (initialViews sim)))
                                                   (Num (growthDurationHours sim))
                              in jfloor (jadd (Num (real_of_int (initialViews sim)))
                                              (jmul viewsPerHour (Num elapsedHours)))));
                        potentialLikes = jfloor (jmul (jreal targetViews) (Num (likeRatio sim)));
                        targetLikes = jmin (jmin (jreal potentialLikes) (Num (maxLikes sim)))
                                        (jreal targetViews)
                    in case Math_random w2 of (rv, w3) \<Rightarrow>
                       case Math_random w3 of (rl, w4) \<Rightarrow>
                         (let viewVariance = rv * (1 / 10) - 5 / 100;
                              likeVariance = rl * (15 / 100) - 75 / 1000;
                              targetViews = jfloor (jmul (jreal targetViews) (Num (1 + viewVariance)));
                              targetLikes = jfloor (jmul targetLikes (Num (1 + likeVariance)));
                              targetViews = jmax targetViews (Num (viewCount post));
                              targetLikes = jmax targetLikes (Num (likeCount post));
                              targetLikes = jmin targetLikes targetViews;
                              hasChanges = jgt targetViews (Num (viewCount post))
                                           \<or> jgt targetLikes (Num (likeCount post))
                          in if hasChanges then
                               (case beginTransaction w4 of
                                  (Inl e, w5) \<Rightarrow> (Inl e, w5)
                                | (Inr _, w5) \<Rightarrow>
                                    (case lockedUpdate_v1 mediaId targetViews targetLikes sim
                                            elapsedHours w5 of
                                       (Inl e, w6) \<Rightarrow> (Inl e, w6\<lparr>tables := tables w5\<rparr>)
                                     | (Inr _, w6) \<Rightarrow> (Inl ReferenceError, w6)))
                             else
                               (Inr (Update mediaId targetViews targetLikes
                                       (jmul (jdiv (Num elapsedHours) (Num (growthDurationHours sim)))
                                             (Num 100))
                                       (Num 0) (Num 0)), w4))))))"

section \<open>More example data\<close>

definition stalePostWorld :: world where
  "stalePostWorld = exampleWorld\<lparr>tables := (tables exampleWorld)\<lparr>posts :=
      [examplePost\<lparr>viewCount := 150\<rparr>]\<rparr>\<rparr>"

definition nearTargetPost :: post where
  "nearTargetPost = examplePost\<lparr>viewCount := 118\<rparr>"

definition nearTargetWorld :: world where
  "nearTargetWorld = exampleWorld\<lparr>tables := (tables exampleWorld)\<lparr>posts := [nearTargetPost]\<rparr>\<rparr>"

definition atTargetPost :: post where
  "atTargetPost = examplePost\<lparr>viewCount := 120, likeCount := 6\<rparr>"

definition atTargetWorld :: world where
  "atTargetWorld = exampleWorld\<lparr>tables := (tables exampleWorld)\<lparr>posts := [atTargetPost]\<rparr>\<rparr>"

definition twoTargetRegistry :: registry where
  "twoTargetRegistry = [(7, exampleSimulation\<lparr>targetMediaId := 7\<rparr>), (1, exampleSimulation)]"

definition batchReadFailsWorld :: world where
  "batchReadFailsWorld = exampleWorld\<lparr>dbFails := (\<lambda>n. n = 0)\<rparr>"

definition exponentialFromZeroConfig :: start_config where
  "exponentialFromZeroConfig =
     \<lparr> c_targetMediaId = 1, c_maxViews = 10000, c_maxLikes = Some 500, c_likeRatio = None,
       c_growthDurationHours = Some (- 5), c_growthCurve = Some ''exponential'' \<rparr>"

definition noViewsWorld :: world where
  "noViewsWorld = exampleWorld\<lparr>tables := (tables exampleWorld)\<lparr>posts :=
      [examplePost\<lparr>viewCount := 0, likeCount := 0\<rparr>]\<rparr>\<rparr>"

section \<open>Properties of the growth curves\<close>

lemma sigmoid_denominator_pos: "0 < 1 + exp (x :: real)"
  by (simp add: add_pos_pos)

lemma calculateSigmoidGrowth_closed_form:
  "calculateSigmoidGrowth t T L = sigmoid_spec t T L"
  by (simp add: calculateSigmoidGrowth_def sigmoid_spec_def)

lemma sigmoid_spec_midpoint: "sigmoid_spec (T / 2) T L = L / 2"
  by (simp add: sigmoid_spec_def)

lemma sigmoid_spec_mono:
  assumes "0 \<le> L" and "t1 \<le> t2"
  shows "sigmoid_spec t1 T L \<le> sigmoid_spec t2 T L"
proof -
  have "exp (- (15 / 100) * (t2 - T / 2)) \<le> exp (- (15 / 100) * (t1 - T / 2))"
    using assms(2) by simp
  then have "1 + exp (- (15 / 100) * (t2 - T / 2)) \<le> 1 + exp (- (15 / 100) * (t1 - T / 2))"
    by simp
  then show ?thesis
    unfolding sigmoid_spec_def
    using assms(1) sigmoid_denominator_pos [of "- (15 / 100) * (t2 - T / 2)"]
    by (intro divide_left_mono) (simp_all add: add_pos_pos)
qed

text \<open>
  C9. For every T > 0, L \<ge> 0 and every t, calculateSigmoidGrowth(t, T, L) equals the
  closed form L / (1 + e^(-0.15 (t - T/2))); it equals L/2 at t = T/2 and is
  monotonically non-decreasing in t for fixed T and L.
\<close>

theorem C9_sigmoid_closed_form_midpoint_monotone:
  assumes "0 < T" and "0 \<le> L"
  shows "calculateSigmoidGrowth t T L = L / (1 + exp (- (15 / 100) * (t - T / 2)))
       \<and> calculateSigmoidGrowth (T / 2) T L = L / 2
       \<and> (\<forall>t1 t2. t1 \<le> t2 \<longrightarrow> calculateSigmoidGrowth t1 T L \<le> calculateSigmoidGrowth t2 T L)"
  using assms sigmoid_spec_mono [of L _ _ T] sigmoid_spec_midpoint [of T L]
  by (simp add: calculateSigmoidGrowth_closed_form) (simp add: sigmoid_spec_def)

theorem C9_witness:
  "(0::real) < 72 \<and> (0::real) \<le> 10000
   \<and> calculateSigmoidGrowth 36 72 10000 = 5000
   \<and> calculateSigmoidGrowth 0 72 10000 \<le> calculateSigmoidGrowth 72 72 10000"
proof -
  have "calculateSigmoidGrowth (72 / 2) 72 10000 = 10000 / 2
        \<and> (\<forall>t1 t2. t1 \<le> t2 \<longrightarrow> calculateSigmoidGrowth t1 72 10000 \<le> calculateSigmoidGrowth t2 72 10000)"
    using C9_sigmoid_closed_form_midpoint_monotone [of 72 10000 0] by simp
  then show ?thesis by simp
qed


text \<open>
  Over the exact reals the curve stays strictly between 0 and its maximum. In doubles
  the bounds are reached, as the next section shows.
\<close>

lemma quotient_strictly_between:
  fixes L :: real
  assumes "0 < L" and d: "1 < d"
  shows "0 < L / d \<and> L / d < L"
proof -
  have dpos: "0 < d" using d by simp
  have "L * 1 < L * d"
    using assms by (intro mult_strict_left_mono)
  then have "L / d < L"
    using dpos by (simp add: pos_divide_less_eq mult.commute)
  moreover have "0 < L / d"
    using assms dpos by (intro divide_pos_pos)
  ultimately show ?thesis by simp
qed

lemma sigmoid_strict_bounds_over_reals:
  assumes "0 < L"
  shows "0 < calculateSigmoidGrowth t T L \<and> calculateSigmoidGrowth t T L < L"
  unfolding calculateSigmoidGrowth_closed_form sigmoid_spec_def
  by (rule quotient_strictly_between [OF assms]) simp

section \<open>The sigmoid curve in doubles\<close>

text \<open>
  First the rounding: it keeps the sign, commutes with negation, and does not cross a
  power of two or a double. Then the curve.
\<close>

lemma pow2_powr: "pow2 e = 2 powr real_of_int e"
  by (simp add: pow2_def powr_int)

lemma pow2_pos: "0 < pow2 e"
  by (simp add: pow2_powr)

lemma pow2_add: "pow2 (a + b) = pow2 a * pow2 b"
  by (simp add: pow2_powr powr_add)

lemma pow2_mono: "a \<le> b \<Longrightarrow> pow2 a \<le> pow2 b"
  by (simp add: pow2_powr powr_mono)

lemma pow2_strict_mono: "a < b \<Longrightarrow> pow2 a < pow2 b"
  by (simp add: pow2_powr)

lemma pow2_nat: "0 \<le> e \<Longrightarrow> pow2 e = real_of_int (2 ^ nat e)"
  by (simp add: pow2_def)

lemma pow2_floor_log:
  assumes "0 < x"
  shows "pow2 \<lfloor>log 2 x\<rfloor> \<le> x" and "x < pow2 (\<lfloor>log 2 x\<rfloor> + 1)"
proof -
  have "real_of_int \<lfloor>log 2 x\<rfloor> \<le> log 2 x" by simp
  then have "2 powr real_of_int \<lfloor>log 2 x\<rfloor> \<le> 2 powr log 2 x"
    by (simp add: powr_mono)
  then show "pow2 \<lfloor>log 2 x\<rfloor> \<le> x" using assms by (simp add: pow2_powr)
  have "log 2 x < real_of_int (\<lfloor>log 2 x\<rfloor> + 1)" by linarith
  then have "2 powr log 2 x < 2 powr real_of_int (\<lfloor>log 2 x\<rfloor> + 1)"
    by (intro powr_less_mono) simp_all
  then show "x < pow2 (\<lfloor>log 2 x\<rfloor> + 1)" using assms by (simp add: pow2_powr)
qed

lemma floor_log_le:
  assumes "0 < x" and "x \<le> pow2 k"
  shows "\<lfloor>log 2 x\<rfloor> \<le> k"
proof -
  have "log 2 x \<le> log 2 (pow2 k)" using assms by simp
  also have "\<dots> = real_of_int k" by (simp add: pow2_powr)
  finally show ?thesis by (simp add: floor_le_iff)
qed

lemma floor_log_less:
  assumes "0 < x" and "x < pow2 k"
  shows "\<lfloor>log 2 x\<rfloor> < k"
proof -
  have "log 2 x < log 2 (pow2 k)" using assms by simp
  also have "\<dots> = real_of_int k" by (simp add: pow2_powr)
  finally show ?thesis by (simp add: floor_less_iff)
qed

lemma floor_log_ge:
  assumes "pow2 k \<le> x"
  shows "k \<le> \<lfloor>log 2 x\<rfloor>"
proof -
  have x: "0 < x" using assms pow2_pos [of k] by linarith
  have "log 2 (pow2 k) \<le> log 2 x" using assms pow2_pos [of k] by simp
  moreover have "log 2 (pow2 k) = real_of_int k" by (simp add: pow2_powr)
  ultimately show ?thesis by (simp add: le_floor_iff)
qed

lemma roundTiesToEven_bounds: "\<lfloor>x\<rfloor> \<le> roundTiesToEven x \<and> roundTiesToEven x \<le> \<lfloor>x\<rfloor> + 1"
  by (simp add: roundTiesToEven_def Let_def)

lemma roundTiesToEven_int [simp]: "roundTiesToEven (real_of_int n) = n"
  by (simp add: roundTiesToEven_def)

lemma roundTiesToEven_mono:
  assumes "x \<le> y"
  shows "roundTiesToEven x \<le> roundTiesToEven y"
proof (cases "\<lfloor>x\<rfloor> = \<lfloor>y\<rfloor>")
  case True
  then show ?thesis using assms by (auto simp: roundTiesToEven_def Let_def)
next
  case False
  then have "\<lfloor>x\<rfloor> + 1 \<le> \<lfloor>y\<rfloor>" using floor_mono [OF assms] by linarith
  then show ?thesis
    using roundTiesToEven_bounds [of x] roundTiesToEven_bounds [of y] by linarith
qed

lemma roundTiesToEven_near:
  assumes "real_of_int n \<le> x" and "x < real_of_int n + 1 / 2"
  shows "roundTiesToEven x = n"
proof -
  have "\<lfloor>x\<rfloor> = n" using assms by linarith
  then show ?thesis using assms by (simp add: roundTiesToEven_def Let_def)
qed

lemma roundTiesToEven_minus: "roundTiesToEven (- x) = - roundTiesToEven x"
proof (cases "x = real_of_int \<lfloor>x\<rfloor>")
  case True
  then obtain n where "x = real_of_int n" by blast
  then show ?thesis
    by (simp del: of_int_minus add: of_int_minus [symmetric])
next
  case False
  then have lt: "real_of_int \<lfloor>x\<rfloor> < x" by linarith
  have fl: "\<lfloor>- x\<rfloor> = - \<lfloor>x\<rfloor> - 1" using lt by linarith
  show ?thesis
    using lt by (auto simp: roundTiesToEven_def Let_def fl)
qed

lemma binade_minus [simp]: "binade (- x) = binade x"
  by (simp add: binade_def)

lemma nearestDouble_minus: "nearestDouble (- x) = - nearestDouble x"
  by (simp add: nearestDouble_def Let_def roundTiesToEven_minus)

lemma binade_ge: "- 1022 \<le> binade x"
  by (simp add: binade_def)

lemma binade_eq:
  assumes "pow2 e \<le> x" and "x < pow2 (e + 1)" and "- 1022 \<le> e"
  shows "binade x = e"
proof -
  have x: "0 < x" using assms(1) pow2_pos [of e] by linarith
  have "e \<le> \<lfloor>log 2 x\<rfloor>" using floor_log_ge [OF assms(1)] .
  moreover have "\<lfloor>log 2 x\<rfloor> < e + 1" using floor_log_less [OF x assms(2)] .
  ultimately show ?thesis using assms(3) x by (simp add: binade_def)
qed

lemma binade_mono:
  assumes "0 < x" and "x \<le> y"
  shows "binade x \<le> binade y"
proof -
  have "log 2 x \<le> log 2 y" using assms by simp
  then have "\<lfloor>log 2 x\<rfloor> \<le> \<lfloor>log 2 y\<rfloor>" by (rule floor_mono)
  then show ?thesis using assms by (simp add: binade_def)
qed

lemma nearestDouble_nonneg:
  assumes "0 \<le> x"
  shows "0 \<le> nearestDouble x"
proof (cases "x = 0")
  case True
  then show ?thesis by (simp add: nearestDouble_def)
next
  case False
  let ?q = "pow2 (binade x - 52)"
  have "0 \<le> x / ?q" using assms pow2_pos [of "binade x - 52"] by simp
  then have "roundTiesToEven 0 \<le> roundTiesToEven (x / ?q)"
    by (rule roundTiesToEven_mono)
  then have "0 \<le> roundTiesToEven (x / ?q)"
    by (simp add: roundTiesToEven_def)
  then show ?thesis
    using False pow2_pos [of "binade x - 52"] by (simp add: nearestDouble_def Let_def)
qed

text \<open>Rounding does not cross a power of two.\<close>

lemma nearestDouble_le_pow2:
  assumes "0 < x" and "x \<le> pow2 k" and "- 1022 \<le> k"
  shows "nearestDouble x \<le> pow2 k"
proof -
  let ?e = "binade x"
  let ?q = "pow2 (?e - 52)"
  have q: "0 < ?q" by (rule pow2_pos)
  have ek: "?e \<le> k"
    using floor_log_le [OF assms(1,2)] assms(1,3) by (simp add: binade_def)
  then have n: "0 \<le> k - ?e + 52" by simp
  have "pow2 k = pow2 ((k - ?e + 52) + (?e - 52))" by simp
  also have "\<dots> = pow2 (k - ?e + 52) * ?q" by (rule pow2_add)
  finally have pk: "pow2 k = real_of_int (2 ^ nat (k - ?e + 52)) * ?q"
    using pow2_nat [OF n] by simp
  have "x / ?q \<le> real_of_int (2 ^ nat (k - ?e + 52))"
    using assms(2) q by (simp add: pk pos_divide_le_eq)
  then have "roundTiesToEven (x / ?q) \<le> roundTiesToEven (real_of_int (2 ^ nat (k - ?e + 52)))"
    by (rule roundTiesToEven_mono)
  then have "roundTiesToEven (x / ?q) \<le> 2 ^ nat (k - ?e + 52)"
    by (simp only: roundTiesToEven_int)
  then have "real_of_int (roundTiesToEven (x / ?q)) \<le> real_of_int (2 ^ nat (k - ?e + 52))"
    by (simp only: of_int_le_iff)
  then have "real_of_int (roundTiesToEven (x / ?q)) * ?q \<le> real_of_int (2 ^ nat (k - ?e + 52)) * ?q"
    using q by (intro mult_right_mono) simp_all
  then show ?thesis
    using assms(1) by (simp only: pk nearestDouble_def Let_def) simp
qed

lemma nearestDouble_ge_pow2:
  assumes "pow2 k \<le> x" and "- 1022 \<le> k"
  shows "pow2 k \<le> nearestDouble x"
proof -
  have x: "0 < x" using assms(1) pow2_pos [of k] by linarith
  let ?e = "binade x"
  let ?q = "pow2 (?e - 52)"
  have q: "0 < ?q" by (rule pow2_pos)
  have ke: "k \<le> \<lfloor>log 2 x\<rfloor>" using floor_log_ge [OF assms(1)] .
  then have e: "?e = \<lfloor>log 2 x\<rfloor>" using assms(2) x by (simp add: binade_def)
  have "pow2 ?e = pow2 (52 + (?e - 52))" by simp
  also have "\<dots> = pow2 52 * ?q" by (rule pow2_add)
  finally have pe: "pow2 ?e = real_of_int (2 ^ 52) * ?q"
    by (simp add: pow2_def)
  have "pow2 ?e \<le> x" using pow2_floor_log(1) [OF x] e by simp
  then have "real_of_int (2 ^ 52) \<le> x / ?q"
    using q by (simp add: pe pos_le_divide_eq)
  then have "roundTiesToEven (real_of_int (2 ^ 52)) \<le> roundTiesToEven (x / ?q)"
    by (rule roundTiesToEven_mono)
  then have "2 ^ 52 \<le> roundTiesToEven (x / ?q)"
    by (simp only: roundTiesToEven_int)
  then have "real_of_int (2 ^ 52) \<le> real_of_int (roundTiesToEven (x / ?q))"
    by (simp only: of_int_le_iff)
  then have "real_of_int (2 ^ 52) * ?q \<le> real_of_int (roundTiesToEven (x / ?q)) * ?q"
    using q by (intro mult_right_mono) simp_all
  then have "pow2 ?e \<le> nearestDouble x"
    using x by (simp only: pe nearestDouble_def Let_def) simp
  moreover have "pow2 k \<le> pow2 ?e" using ke e by (intro pow2_mono) simp
  ultimately show ?thesis by linarith
qed

text \<open>Rounding does not cross a double.\<close>

lemma nearestDouble_le_double:
  assumes "0 < y" and "y \<le> L" and "nearestDouble L = L"
  shows "nearestDouble y \<le> L"
proof (cases "binade y = binade L")
  case True
  let ?q = "pow2 (binade L - 52)"
  have q: "0 < ?q" by (rule pow2_pos)
  have "y / ?q \<le> L / ?q" using assms(2) q by (simp add: divide_right_mono)
  then have "roundTiesToEven (y / ?q) \<le> roundTiesToEven (L / ?q)"
    by (rule roundTiesToEven_mono)
  then have "real_of_int (roundTiesToEven (y / ?q)) * ?q \<le> real_of_int (roundTiesToEven (L / ?q)) * ?q"
    using q by (intro mult_right_mono) simp_all
  then have "nearestDouble y \<le> nearestDouble L"
    using assms(1,2) True by (simp add: nearestDouble_def Let_def)
  then show ?thesis using assms(3) by simp
next
  case False
  have L: "0 < L" using assms by linarith
  have lt: "binade y < binade L" using binade_mono [OF assms(1,2)] False by simp
  have "- 1022 < binade L" using lt binade_ge [of y] by linarith
  then have eL: "binade L = \<lfloor>log 2 L\<rfloor>" using L by (simp add: binade_def max_def split: if_splits)
  have "\<lfloor>log 2 y\<rfloor> \<le> binade y" using assms(1) by (simp add: binade_def)
  then have "pow2 (\<lfloor>log 2 y\<rfloor> + 1) \<le> pow2 (binade y + 1)" by (intro pow2_mono) simp
  then have "y \<le> pow2 (binade y + 1)" using pow2_floor_log(2) [OF assms(1)] by linarith
  then have "nearestDouble y \<le> pow2 (binade y + 1)"
    using binade_ge [of y] by (intro nearestDouble_le_pow2 [OF assms(1)]) simp_all
  also have "\<dots> \<le> pow2 (binade L)" using lt by (intro pow2_mono) simp
  also have "\<dots> \<le> L" using pow2_floor_log(1) [OF L] eL by simp
  finally show ?thesis .
qed

lemma roundToDouble_nonneg:
  assumes "0 \<le> x"
  shows "roundToDouble x = PosInf \<or> (\<exists>r. roundToDouble x = Num r \<and> 0 \<le> r)"
  using nearestDouble_nonneg [OF assms] pow2_pos [of 1024]
  by (simp add: roundToDouble_def Let_def)

lemma roundToDouble_ge_one:
  assumes "1 \<le> x"
  shows "roundToDouble x = PosInf \<or> (\<exists>r. roundToDouble x = Num r \<and> 1 \<le> r)"
proof -
  have "pow2 0 \<le> nearestDouble x"
    using assms by (intro nearestDouble_ge_pow2) (simp_all add: pow2_def)
  then have "1 \<le> nearestDouble x" by (simp add: pow2_def)
  then show ?thesis
    using pow2_pos [of 1024] by (simp add: roundToDouble_def Let_def)
qed

lemma roundToDouble_between:
  assumes "pow2 a \<le> x" and "x \<le> pow2 b" and "- 1022 \<le> a" and "b < 1024"
  shows "\<exists>r. roundToDouble x = Num r \<and> pow2 a \<le> r \<and> r \<le> pow2 b"
proof -
  have x: "0 < x" using assms(1) pow2_pos [of a] by linarith
  have "a \<le> b" using assms(1,2) floor_log_ge [OF assms(1)] floor_log_le [OF x assms(2)] by linarith
  then have b: "- 1022 \<le> b" using assms(3) by simp
  have lo: "pow2 a \<le> nearestDouble x" using nearestDouble_ge_pow2 [OF assms(1,3)] .
  have hi: "nearestDouble x \<le> pow2 b" using nearestDouble_le_pow2 [OF x assms(2) b] .
  have "pow2 b < pow2 1024"
    using assms(4) by (rule pow2_strict_mono)
  then show ?thesis
    using lo hi pow2_pos [of a] by (simp add: roundToDouble_def Let_def)
qed

lemma roundToDouble_minus: "roundToDouble (- x) = jneg (roundToDouble x)"
  using pow2_pos [of 1024]
  by (simp add: roundToDouble_def nearestDouble_minus Let_def)

lemma roundToDouble_quotient:
  assumes "isDouble L" and "0 < L" and "1 \<le> d"
  shows "\<exists>r. roundToDouble (L / d) = Num r \<and> 0 \<le> r \<and> r \<le> L"
proof -
  have nL: "nearestDouble L = L" and bL: "L < pow2 1024"
    using assms(1) by (auto simp: isDouble_def roundToDouble_def Let_def split: if_splits)
  have y: "0 < L / d" using assms by simp
  have "L / d \<le> L / 1" using assms by (intro divide_left_mono) simp_all
  then have yl: "L / d \<le> L" by simp
  have "nearestDouble (L / d) \<le> L" using nearestDouble_le_double [OF y yl nL] .
  moreover have "0 \<le> nearestDouble (L / d)" using y by (intro nearestDouble_nonneg) simp
  ultimately show ?thesis
    using bL pow2_pos [of 1024] by (simp add: roundToDouble_def Let_def)
qed

lemma roundToDouble_zero [simp]: "roundToDouble 0 = Num 0"
  using pow2_pos [of 1024] by (simp add: roundToDouble_def nearestDouble_def)

lemma toDouble_not_NaN: "x \<noteq> NaN \<Longrightarrow> toDouble x \<noteq> NaN"
  by (cases x) (simp_all add: roundToDouble_def Let_def)

lemma steepness_double: "\<exists>k. roundToDouble 0.15 = Num k \<and> pow2 (- 3) \<le> k \<and> k \<le> pow2 (- 2)"
  by (rule roundToDouble_between) (simp_all add: pow2_def)

lemma Math_exp_nonneg:
  assumes "x \<noteq> NaN"
  shows "Math_exp x = PosInf \<or> (\<exists>r. Math_exp x = Num r \<and> 0 \<le> r)"
proof (cases x)
  case (Num a)
  then show ?thesis using roundToDouble_nonneg [of "exp a"] by (simp add: Math_exp_def)
qed (use assms in \<open>simp_all add: Math_exp_def\<close>)

lemma roundTiesToEven_numeral [simp]: "roundTiesToEven (numeral n) = numeral n"
  using roundTiesToEven_int [of "numeral n"] by simp

lemma isDouble_10000: "isDouble 10000"
proof -
  have b: "binade 10000 = 13"
    by (rule binade_eq) (simp_all add: pow2_def)
  have "nearestDouble 10000 = 10000"
    by (simp add: nearestDouble_def b pow2_def)
  moreover have "pow2 14 < pow2 1024" by (rule pow2_strict_mono) simp
  then have "(10000 :: real) < pow2 1024" by (simp add: pow2_def [of 14])
  ultimately show ?thesis
    by (simp add: isDouble_def roundToDouble_def Let_def)
qed

lemma roundToDouble_one_plus:
  assumes "0 \<le> e" and "e \<le> pow2 (- 54)"
  shows "roundToDouble (1 + e) = Num 1"
proof -
  have e: "e \<le> 1 / 2 ^ 54" using assms(2) by (simp add: pow2_def)
  have "1 / 2 ^ 54 < (1 :: real)" by simp
  then have e1: "e < 1" using e by linarith
  have b: "binade (1 + e) = 0"
    using assms(1) e1 by (intro binade_eq) (simp_all add: pow2_def)
  have q: "pow2 (- 52) = 1 / 2 ^ 52" by (simp add: pow2_def)
  have "e * 2 ^ 52 \<le> 1 / 2 ^ 54 * 2 ^ 52"
    using e by (intro mult_right_mono) simp_all
  then have "e * 2 ^ 52 < 1 / 2" by simp
  then have "roundTiesToEven ((1 + e) / pow2 (- 52)) = 2 ^ 52"
    using assms(1) by (intro roundTiesToEven_near) (simp_all add: q algebra_simps)
  then have n: "nearestDouble (1 + e) = 1"
    using assms(1) by (simp add: nearestDouble_def b q)
  have "pow2 0 < pow2 1024" by (rule pow2_strict_mono) simp
  then have "1 < pow2 1024" by (simp add: pow2_def [of 0])
  then show ?thesis by (simp add: roundToDouble_def n)
qed

lemma exp_minus_le_pow2:
  assumes "real n \<le> p"
  shows "exp (- p) \<le> pow2 (- int n)"
proof -
  have "(2 :: real) \<le> exp 1" using exp_ge_add_one_self [of 1] by simp
  then have "(2 :: real) ^ n \<le> exp 1 ^ n" by (intro power_mono) simp_all
  also have "\<dots> = exp (real n)" using exp_of_nat_mult [of n "1::real"] by simp
  also have "\<dots> \<le> exp p" using assms by simp
  finally have "inverse (exp p) \<le> inverse (2 ^ n)"
    by (intro le_imp_inverse_le) simp_all
  then have "exp (- p) \<le> 1 / 2 ^ n" by (simp add: exp_minus inverse_eq_divide)
  moreover have "pow2 (- int n) = 1 / 2 ^ n" by (simp add: pow2_powr powr_minus powr_realpow inverse_eq_divide)
  ultimately show ?thesis by simp
qed

lemma sigmoid_double_saturates:
  "calculateSigmoidGrowth_double 1000 72 10000 = Num 10000"
proof -
  obtain k where k: "roundToDouble 0.15 = Num k" and k1: "pow2 (- 3) \<le> k" and k2: "k \<le> pow2 (- 2)"
    using steepness_double by blast
  obtain m where m: "roundToDouble 36 = Num m" and m1: "pow2 5 \<le> m" and m2: "m \<le> pow2 6"
    using roundToDouble_between [of 5 36 6] by (auto simp: pow2_def)
  have "\<exists>r. roundToDouble (1000 - m) = Num r \<and> pow2 9 \<le> r \<and> r \<le> pow2 10"
    using m1 m2 by (intro roundToDouble_between) (simp_all add: pow2_def)
  then obtain d where d: "roundToDouble (1000 - m) = Num d" and d1: "pow2 9 \<le> d" and d2: "d \<le> pow2 10"
    by blast
  have kd1: "(1 / 8) * 512 \<le> k * d"
    using k1 d1 by (intro mult_mono) (simp_all add: pow2_def)
  have kd2: "k * d \<le> (1 / 4) * 1024"
    using k1 k2 d1 d2 by (intro mult_mono) (simp_all add: pow2_def)
  have "\<exists>r. roundToDouble (k * d) = Num r \<and> pow2 6 \<le> r \<and> r \<le> pow2 8"
    using kd1 kd2 by (intro roundToDouble_between) (simp_all add: pow2_def)
  then obtain p where p: "roundToDouble (k * d) = Num p" and p1: "pow2 6 \<le> p"
    by blast
  have "real 64 \<le> p" using p1 by (simp add: pow2_def)
  then have "exp (- p) \<le> pow2 (- int 64)" by (rule exp_minus_le_pow2)
  then have ex: "exp (- p) \<le> pow2 (- 64)" by simp
  have "nearestDouble (exp (- p)) \<le> pow2 (- 64)"
    using ex by (intro nearestDouble_le_pow2) simp_all
  moreover have "0 \<le> nearestDouble (exp (- p))" by (intro nearestDouble_nonneg) simp
  moreover have "pow2 (- 64) < pow2 1024" "pow2 (- 64) \<le> pow2 (- 54)"
    by (rule pow2_strict_mono, simp) (rule pow2_mono, simp)
  ultimately obtain e where e: "roundToDouble (exp (- p)) = Num e" and e0: "0 \<le> e" and e1: "e \<le> pow2 (- 54)"
    using pow2_pos [of 1024] by (simp add: roundToDouble_def Let_def)
  have s: "roundToDouble (1 + e) = Num 1" using roundToDouble_one_plus [OF e0 e1] .
  have L: "roundToDouble 10000 = Num 10000" using isDouble_10000 by (simp add: isDouble_def)
  have arg: "roundToDouble (- (k * d)) = Num (- p)" by (simp add: roundToDouble_minus p)
  show ?thesis
    unfolding calculateSigmoidGrowth_double_def Let_def k
    by (simp add: m d arg Math_exp_def e s L)
qed


lemma pow2_le_exp:
  assumes "real n \<le> p"
  shows "pow2 (int n) \<le> exp p"
proof -
  have "(2 :: real) \<le> exp 1" using exp_ge_add_one_self [of 1] by simp
  then have "(2 :: real) ^ n \<le> exp 1 ^ n" by (intro power_mono) simp_all
  also have "\<dots> = exp (real n)" using exp_of_nat_mult [of n "1::real"] by simp
  also have "\<dots> \<le> exp p" using assms by simp
  finally show ?thesis by (simp add: pow2_def)
qed

lemma sigmoid_double_vanishes:
  "calculateSigmoidGrowth_double (- 10000) 72 10000 = Num 0"
proof -
  obtain k where k: "roundToDouble 0.15 = Num k" and k1: "pow2 (- 3) \<le> k" and k2: "k \<le> pow2 (- 2)"
    using steepness_double by blast
  obtain m where m: "roundToDouble 36 = Num m" and m1: "pow2 5 \<le> m" and m2: "m \<le> pow2 6"
    using roundToDouble_between [of 5 36 6] by (auto simp: pow2_def)
  have "\<exists>r. roundToDouble (10000 + m) = Num r \<and> pow2 13 \<le> r \<and> r \<le> pow2 14"
    using m1 m2 by (intro roundToDouble_between) (simp_all add: pow2_def)
  then obtain d where d: "roundToDouble (10000 + m) = Num d" and d1: "pow2 13 \<le> d" and d2: "d \<le> pow2 14"
    by blast
  have "roundToDouble (- (10000 + m)) = Num (- d)"
    by (simp only: roundToDouble_minus d jneg.simps)
  moreover have "- (10000 + m) = - 10000 - m" by simp
  ultimately have diff: "roundToDouble (- 10000 - m) = Num (- d)" by (simp only:)
  have kd1: "(1 / 8) * 8192 \<le> k * d"
    using k1 d1 by (intro mult_mono) (simp_all add: pow2_def)
  have kd2: "k * d \<le> (1 / 4) * 16384"
    using k1 k2 d1 d2 by (intro mult_mono) (simp_all add: pow2_def)
  have "\<exists>r. roundToDouble (k * d) = Num r \<and> pow2 10 \<le> r \<and> r \<le> pow2 12"
    using kd1 kd2 by (intro roundToDouble_between) (simp_all add: pow2_def)
  then obtain p where p: "roundToDouble (k * d) = Num p" and p1: "pow2 10 \<le> p"
    by blast
  have "real 1024 \<le> p" using p1 by (simp add: pow2_def)
  then have "pow2 (int 1024) \<le> exp p" by (rule pow2_le_exp)
  then have "pow2 1024 \<le> exp p" by simp
  then have "pow2 1024 \<le> nearestDouble (exp p)"
    by (rule nearestDouble_ge_pow2) simp
  then have e: "roundToDouble (exp p) = PosInf"
    by (simp add: roundToDouble_def Let_def)
  show ?thesis
    unfolding calculateSigmoidGrowth_double_def Let_def k
    by (simp add: m diff p Math_exp_def e)
qed


lemma roundToDouble_exact:
  assumes "pow2 e \<le> x" and "x < pow2 (e + 1)" and "- 1022 \<le> e" and "e < 1024"
    and "x / pow2 (e - 52) = real_of_int n"
  shows "roundToDouble x = Num x"
proof -
  have x: "0 < x" using assms(1) pow2_pos [of e] by linarith
  have b: "binade x = e" using binade_eq [OF assms(1,2,3)] .
  have q: "0 < pow2 (e - 52)" by (rule pow2_pos)
  have "real_of_int n * pow2 (e - 52) = x"
    using assms(5) q by (simp add: field_simps)
  then have n: "nearestDouble x = x"
    using x by (simp add: nearestDouble_def b assms(5))
  have "pow2 (e + 1) \<le> pow2 1024" using assms(4) by (intro pow2_mono) simp
  then have "x < pow2 1024" using assms(2) by linarith
  then show ?thesis
    using x pow2_pos [of 1024] by (simp add: roundToDouble_def n)
qed

lemma doubles_of_the_midpoint:
  "roundToDouble 36 = Num 36" "roundToDouble 1 = Num 1" "roundToDouble 2 = Num 2"
  "roundToDouble 5000 = Num 5000"
proof -
  show "roundToDouble 36 = Num 36"
    by (rule roundToDouble_exact [where e = 5 and n = "36 * 2 ^ 47"]) (simp_all add: pow2_def)
  show "roundToDouble 1 = Num 1"
    by (rule roundToDouble_exact [where e = 0 and n = "2 ^ 52"]) (simp_all add: pow2_def)
  show "roundToDouble 2 = Num 2"
    by (rule roundToDouble_exact [where e = 1 and n = "2 ^ 52"]) (simp_all add: pow2_def)
  show "roundToDouble 5000 = Num 5000"
    by (rule roundToDouble_exact [where e = 12 and n = "5000 * 2 ^ 40"]) (simp_all add: pow2_def)
qed

lemma sigmoid_double_midpoint: "calculateSigmoidGrowth_double 36 72 10000 = Num 5000"
proof -
  obtain k where k: "roundToDouble 0.15 = Num k"
    using steepness_double by blast
  show ?thesis
    unfolding calculateSigmoidGrowth_double_def Let_def k
    by (simp add: doubles_of_the_midpoint Math_exp_def)
qed

text \<open>
  C10 (amended). For every maximum L > 0 that is a double and every t and T,
  calculateSigmoidGrowth(t, T, L) as computed in doubles is a number from 0 to L, both
  included; over the exact reals it lies strictly between 0 and L.
\<close>

theorem C10_sigmoid_bounds_in_doubles:
  assumes "isDouble L" and "0 < L"
  shows "(\<exists>r. calculateSigmoidGrowth_double t T L = Num r \<and> 0 \<le> r \<and> r \<le> L)
       \<and> 0 < calculateSigmoidGrowth t T L \<and> calculateSigmoidGrowth t T L < L"
proof -
  obtain k where k: "roundToDouble 0.15 = Num k" and kpos: "0 < k"
    using steepness_double pow2_pos [of "- 3"] by fastforce
  let ?midpoint = "toDouble (jdiv (Num T) (Num 2))"
  let ?diff = "toDouble (jadd (Num t) (jneg ?midpoint))"
  let ?arg = "toDouble (jmul (jneg (Num k)) ?diff)"
  let ?exponential = "Math_exp ?arg"
  let ?sum = "toDouble (jadd (Num 1) ?exponential)"
  have m: "?midpoint \<noteq> NaN" by (intro toDouble_not_NaN) simp
  have "jadd (Num t) (jneg ?midpoint) \<noteq> NaN" using m by (cases ?midpoint) simp_all
  then have d: "?diff \<noteq> NaN" by (rule toDouble_not_NaN)
  have "jmul (jneg (Num k)) ?diff \<noteq> NaN" using d kpos by (cases ?diff) simp_all
  then have a: "?arg \<noteq> NaN" by (rule toDouble_not_NaN)
  have s: "?sum = PosInf \<or> (\<exists>d. ?sum = Num d \<and> 1 \<le> d)"
    using Math_exp_nonneg [OF a]
  proof
    assume "?exponential = PosInf"
    then show ?thesis by simp
  next
    assume "\<exists>r. ?exponential = Num r \<and> 0 \<le> r"
    then obtain r where r: "?exponential = Num r" "0 \<le> r" by blast
    then show ?thesis using roundToDouble_ge_one [of "1 + r"] by simp
  qed
  have res: "calculateSigmoidGrowth_double t T L = toDouble (jdiv (Num L) ?sum)"
    unfolding calculateSigmoidGrowth_double_def Let_def k by (rule refl)
  from s have "\<exists>r. calculateSigmoidGrowth_double t T L = Num r \<and> 0 \<le> r \<and> r \<le> L"
  proof
    assume "?sum = PosInf"
    then show ?thesis using assms(2) by (simp add: res)
  next
    assume "\<exists>d. ?sum = Num d \<and> 1 \<le> d"
    then obtain d where d: "?sum = Num d" "1 \<le> d" by blast
    then show ?thesis
      using roundToDouble_quotient [OF assms d(2)] by (simp add: res)
  qed
  then show ?thesis
    using sigmoid_strict_bounds_over_reals [OF assms(2), of t T] by simp
qed

text \<open>
  The bounds are reached in doubles: far after the midpoint the sum
  \<open>1 + exp (- 0.15 (t - T/2))\<close> is rounded to 1 and the result is the maximum itself, and
  far before the midpoint the exponential overflows and the result is 0.
\<close>

theorem C10_counterexample:
  "calculateSigmoidGrowth_double 1000 72 10000 = Num 10000
   \<and> calculateSigmoidGrowth_double (- 10000) 72 10000 = Num 0"
  by (rule conjI [OF sigmoid_double_saturates sigmoid_double_vanishes])

theorem C10_witness:
  "isDouble 10000 \<and> (0 :: real) < 10000
   \<and> calculateSigmoidGrowth_double 36 72 10000 = Num 5000
   \<and> (0 :: real) \<le> 5000 \<and> (5000 :: real) \<le> 10000"
proof -
  from C10_sigmoid_bounds_in_doubles [OF isDouble_10000, of 36 72]
  obtain r where "calculateSigmoidGrowth_double 36 72 10000 = Num r" "0 \<le> r" "r \<le> 10000"
    by auto
  then show ?thesis
    using sigmoid_double_midpoint isDouble_10000 by simp
qed

section \<open>Properties of the synthetic records\<close>

lemma Math_random_range: "Math_random w = (r, w') \<Longrightarrow> 0 \<le> r \<and> r < 1"
  by (auto simp: Math_random_def frac_lt_1)

lemma Math_random_tables [simp]: "tables (snd (Math_random w)) = tables w"
  by (simp add: Math_random_def)

lemma Math_random_dbFails [simp]: "dbFails (snd (Math_random w)) = dbFails w"
  by (simp add: Math_random_def)

lemma random_index_le:
  assumes "0 \<le> r" and "r < 1"
  shows "nat \<lfloor>r * (real n + 1)\<rfloor> \<le> n"
proof -
  have "r * (real n + 1) < real n + 1"
    using assms by (simp add: mult_less_cancel_right1)
  then have "\<lfloor>r * (real n + 1)\<rfloor> < int n + 1"
    unfolding floor_less_iff by simp
  then show ?thesis by simp
qed

lemma swapElements_mset:
  assumes "i < length shuffled" and "j < length shuffled"
  shows "mset (swapElements shuffled i j) = mset shuffled"
  using assms mset_swap [of j shuffled i] by (simp add: swapElements_def Let_def)

lemma swapElements_length [simp]: "length (swapElements shuffled i j) = length shuffled"
  by (simp add: swapElements_def Let_def)

lemma shuffleLoop_mset:
  "i < length xs \<Longrightarrow> mset (fst (shuffleLoop i xs w)) = mset xs"
proof (induction i arbitrary: xs w)
  case 0
  then show ?case by simp
next
  case (Suc i)
  obtain r w' where rw: "Math_random w = (r, w')" by (cases "Math_random w")
  then have "nat \<lfloor>r * (real (Suc i) + 1)\<rfloor> \<le> Suc i"
    using Math_random_range random_index_le by blast
  then have j: "nat \<lfloor>r * (real (Suc i) + 1)\<rfloor> < length xs"
    using Suc.prems by simp
  have "mset (fst (shuffleLoop i (swapElements xs (Suc i) (nat \<lfloor>r * (real (Suc i) + 1)\<rfloor>)) w'))
        = mset (swapElements xs (Suc i) (nat \<lfloor>r * (real (Suc i) + 1)\<rfloor>))"
    using Suc.prems by (intro Suc.IH) simp
  then show ?case
    using rw j Suc.prems by (simp add: swapElements_mset Let_def)
qed

lemma shuffleLoop_env:
  "tables (snd (shuffleLoop i xs w)) = tables w \<and> dbFails (snd (shuffleLoop i xs w)) = dbFails w
   \<and> clock (snd (shuffleLoop i xs w)) = clock w"
proof (induction i arbitrary: xs w)
  case 0
  then show ?case by simp
next
  case (Suc i)
  then show ?case
    by (simp add: Math_random_def Let_def)
qed

lemma shuffleArray_mset: "mset (fst (shuffleArray xs w)) = mset xs"
proof (cases xs)
  case Nil
  then show ?thesis by (simp add: shuffleArray_def)
next
  case (Cons a list)
  then show ?thesis by (simp add: shuffleArray_def shuffleLoop_mset)
qed

lemma db_call_tables [simp]: "tables (snd (db_call w)) = tables w"
  by (simp add: db_call_def)

lemma set_slice0: "set (slice0 xs e) \<subseteq> set xs"
  by (auto simp: slice0_def dest: in_set_takeD)

lemma distinct_map_slice0: "distinct (map f xs) \<Longrightarrow> distinct (map f (slice0 xs e))"
  by (simp add: slice0_def take_map [symmetric])

lemma length_slice0_le: "length (slice0 xs e) \<le> length xs"
  by (auto simp: slice0_def)

lemma length_slice0_nonneg: "0 \<le> e \<Longrightarrow> length (slice0 xs e) = min (nat e) (length xs)"
  by (simp add: slice0_def min.commute)

lemma selectLikers_result:
  assumes "selectLikers cnt xs w = (sel, w')"
  shows "\<exists>perm. mset perm = mset xs \<and> sel = slice0 perm cnt"
    and "tables w' = tables w" and "dbFails w' = dbFails w"
proof -
  obtain perm w1 where sh: "shuffleArray xs w = (perm, w1)" by (cases "shuffleArray xs w")
  then have "mset perm = mset xs"
    using shuffleArray_mset [of xs w] by simp
  moreover have "sel = slice0 perm cnt" and w1: "w' = w1"
    using assms sh by (simp_all add: selectLikers_def)
  ultimately show "\<exists>perm. mset perm = mset xs \<and> sel = slice0 perm cnt" by blast
  show "tables w' = tables w" and "dbFails w' = dbFails w"
    using sh w1 shuffleLoop_env [of "length xs - 1" xs w] by (simp_all add: shuffleArray_def)
qed

lemma generateSyntheticLikes_Inr:
  assumes "generateSyntheticLikes postId cnt excl w = (Inr n, w')"
  shows "\<exists>perm. mset perm = mset (filter (\<lambda>u. isBot u \<and> user_id u \<notin> excl) (users (tables w)))
           \<and> likes (tables w') = likes (tables w)
                @ map (\<lambda>u. \<lparr> l_userId = user_id u, l_postId = postId \<rparr>) (slice0 perm cnt)
           \<and> n = length (slice0 perm cnt)"
proof -
  let ?elig = "filter (\<lambda>u. isBot u \<and> user_id u \<notin> excl) (users (tables w))"
  let ?w0 = "snd (db_call w)"
  have nofail: "\<not> dbFails w 0"
    using assms by (auto simp: generateSyntheticLikes_def User_findAll_def db_call_def)
  then have find: "User_findAll (\<lambda>u. isBot u \<and> user_id u \<notin> excl) w = (Inr ?elig, ?w0)"
    by (simp add: User_findAll_def db_call_def)
  obtain sel w1 where sel: "selectLikers cnt ?elig ?w0 = (sel, w1)"
    by (cases "selectLikers cnt ?elig ?w0")
  from selectLikers_result [OF sel] obtain perm where
    perm: "mset perm = mset ?elig" "sel = slice0 perm cnt" and tw1: "tables w1 = tables w"
    by auto
  show ?thesis
  proof (cases "sel = []")
    case True
    then have "w' = w1" and "n = 0"
      using assms find sel by (simp_all add: generateSyntheticLikes_def)
    then show ?thesis using perm tw1 True by (intro exI [of _ perm]) simp
  next
    case False
    then have "tables w' = (tables w1)\<lparr>likes := likes (tables w1)
                 @ map (\<lambda>u. \<lparr> l_userId = user_id u, l_postId = postId \<rparr>) sel\<rparr>"
      and "n = length sel"
      using assms find sel
      by (auto simp: generateSyntheticLikes_def Like_bulkCreate_def db_call_def Let_def
               split: if_splits)
    then show ?thesis using perm tw1 by (intro exI [of _ perm]) simp
  qed
qed

lemma generateSyntheticLikes_returns:
  assumes "\<not> dbFails w 0" and "\<not> dbFails w 1"
  shows "\<exists>n w'. generateSyntheticLikes postId cnt excl w = (Inr n, w')"
proof -
  let ?elig = "filter (\<lambda>u. isBot u \<and> user_id u \<notin> excl) (users (tables w))"
  let ?w0 = "snd (db_call w)"
  have find: "User_findAll (\<lambda>u. isBot u \<and> user_id u \<notin> excl) w = (Inr ?elig, ?w0)"
    using assms(1) by (simp add: User_findAll_def db_call_def)
  obtain sel w1 where sel: "selectLikers cnt ?elig ?w0 = (sel, w1)"
    by (cases "selectLikers cnt ?elig ?w0")
  have "dbFails w1 = dbFails ?w0"
    using selectLikers_result(3) [OF sel] .
  then have "\<not> dbFails w1 0"
    using assms(2) by (simp add: db_call_def)
  then show ?thesis
    using find sel
    by (simp add: generateSyntheticLikes_def Like_bulkCreate_def db_call_def Let_def)
qed

text \<open>
  C8. For every content id, count and exclusion set, like generation never creates a like
  record whose actor id is in the exclusion set, every created record is attributed to a
  distinct bot actor, and when fewer eligible actors exist than count it creates fewer
  records; the shortfall is not an error. The ids of the user table are its primary key,
  hence distinct. The function returns normally whenever the two calls of the store do.
\<close>

theorem C8_likes_exclude_distinct_shortfall:
  assumes "distinct (map user_id (users (tables w)))"
  shows "(\<not> dbFails w 0 \<and> \<not> dbFails w 1 \<longrightarrow>
            (\<exists>n w'. generateSyntheticLikes postId cnt excl w = (Inr n, w')))
       \<and> (\<forall>n w'. generateSyntheticLikes postId cnt excl w = (Inr n, w') \<longrightarrow>
            (\<exists>recs. likes (tables w') = likes (tables w) @ recs
                \<and> length recs = n
                \<and> (\<forall>r \<in> set recs. l_postId r = postId \<and> l_userId r \<notin> excl
                       \<and> (\<exists>u \<in> set (users (tables w)). isBot u \<and> user_id u = l_userId r))
                \<and> distinct (map l_userId recs)
                \<and> n \<le> length (filter (\<lambda>u. isBot u \<and> user_id u \<notin> excl) (users (tables w)))
                \<and> (0 \<le> cnt \<longrightarrow> n = min (nat cnt)
                      (length (filter (\<lambda>u. isBot u \<and> user_id u \<notin> excl) (users (tables w)))))))"
proof (intro conjI allI impI)
  assume "\<not> dbFails w 0 \<and> \<not> dbFails w 1"
  then show "\<exists>n w'. generateSyntheticLikes postId cnt excl w = (Inr n, w')"
    using generateSyntheticLikes_returns by blast
next
  fix n w'
  let ?elig = "filter (\<lambda>u. isBot u \<and> user_id u \<notin> excl) (users (tables w))"
  assume "generateSyntheticLikes postId cnt excl w = (Inr n, w')"
  from generateSyntheticLikes_Inr [OF this] obtain perm where
    perm: "mset perm = mset ?elig"
    and lk: "likes (tables w') = likes (tables w)
                @ map (\<lambda>u. \<lparr> l_userId = user_id u, l_postId = postId \<rparr>) (slice0 perm cnt)"
    and n: "n = length (slice0 perm cnt)"
    by blast
  let ?recs = "map (\<lambda>u. \<lparr> l_userId = user_id u, l_postId = postId \<rparr>) (slice0 perm cnt)"
  have set_perm: "set perm = set ?elig"
    using perm by (metis set_mset_mset)
  have len_perm: "length perm = length ?elig"
    using perm by (metis size_mset)
  have "distinct (map user_id ?elig)"
    using assms by (simp add: distinct_map_filter)
  moreover have "mset (map user_id perm) = mset (map user_id ?elig)"
    using perm by simp
  ultimately have "distinct (map user_id perm)"
    by (metis mset_eq_imp_distinct_iff)
  then have d: "distinct (map l_userId ?recs)"
    using distinct_map_slice0 [of user_id perm cnt] by (simp add: comp_def)
  have mem: "\<forall>r \<in> set ?recs. l_postId r = postId \<and> l_userId r \<notin> excl
                \<and> (\<exists>u \<in> set (users (tables w)). isBot u \<and> user_id u = l_userId r)"
    using set_slice0 [of perm cnt] set_perm by auto
  have le: "n \<le> length ?elig"
    using n len_perm length_slice0_le [of perm cnt] by simp
  have eq: "0 \<le> cnt \<longrightarrow> n = min (nat cnt) (length ?elig)"
    using n len_perm length_slice0_nonneg [of cnt perm] by simp
  show "\<exists>recs. likes (tables w') = likes (tables w) @ recs
                \<and> length recs = n
                \<and> (\<forall>r \<in> set recs. l_postId r = postId \<and> l_userId r \<notin> excl
                       \<and> (\<exists>u \<in> set (users (tables w)). isBot u \<and> user_id u = l_userId r))
                \<and> distinct (map l_userId recs)
                \<and> n \<le> length ?elig
                \<and> (0 \<le> cnt \<longrightarrow> n = min (nat cnt) (length ?elig))"
    using lk n d mem le eq by (intro exI [of _ ?recs]) simp
qed

theorem C8_witness:
  "distinct (map user_id (users (tables exampleWorld)))
   \<and> (\<exists>w'. generateSyntheticLikes 1 5 {1} exampleWorld = (Inr 2, w'))"
proof -
  have d: "distinct (map user_id (users (tables exampleWorld)))"
    by (simp add: exampleWorld_def)
  have nf: "\<not> dbFails exampleWorld 0 \<and> \<not> dbFails exampleWorld 1"
    by (simp add: exampleWorld_def)
  from C8_likes_exclude_distinct_shortfall [OF d, of 1 5 "{1}"] nf
  obtain n w' where r: "generateSyntheticLikes 1 5 {1} exampleWorld = (Inr n, w')"
    and "(0::int) \<le> 5 \<longrightarrow> n = min (nat 5)
           (length (filter (\<lambda>u. isBot u \<and> user_id u \<notin> {1}) (users (tables exampleWorld))))"
    by blast
  then have "n = 2" by (simp add: exampleWorld_def)
  with r d show ?thesis by blast
qed









lemma selectViewers_result:
  assumes "selectViewers cfg cnt bots w = (userIds, w')"
  shows "\<exists>perm. mset perm = mset bots
            \<and> userIds = map user_id (slice0 perm (min cnt (maxBotUsersPerBatch cfg)))"
    and "tables w' = tables w" and "dbFails w' = dbFails w"
proof -
  obtain perm w1 where sh: "shuffleArray bots w = (perm, w1)" by (cases "shuffleArray bots w")
  then have "mset perm = mset bots"
    using shuffleArray_mset [of bots w] by simp
  moreover have "userIds = map user_id (slice0 perm (min cnt (maxBotUsersPerBatch cfg)))"
    and w1: "w' = w1"
    using assms sh by (simp_all add: selectViewers_def)
  ultimately show "\<exists>perm. mset perm = mset bots
            \<and> userIds = map user_id (slice0 perm (min cnt (maxBotUsersPerBatch cfg)))"
    by blast
  show "tables w' = tables w" and "dbFails w' = dbFails w"
    using sh w1 shuffleLoop_env [of "length bots - 1" bots w] by (simp_all add: shuffleArray_def)
qed



lemma generateSyntheticViews_Inr:
  assumes "generateSyntheticViews cfg postId cnt w = (Inr u, w')"
  shows "\<exists>userIds w1 recs w2.
           selectViewers cfg cnt (filter isBot (users (tables w))) (snd (db_call w)) = (userIds, w1)
         \<and> buildViewRecords cfg postId userIds 0 (nat cnt) w1 = (recs, w2)
         \<and> insertViewBatches 0 recs w2 = (Inr u, w')"
proof -
  have nofail: "\<not> dbFails w 0"
    using assms by (auto simp: generateSyntheticViews_def User_findAll_def db_call_def)
  then have find: "User_findAll isBot w = (Inr (filter isBot (users (tables w))), snd (db_call w))"
    by (simp add: User_findAll_def db_call_def)
  obtain userIds w1 where sel:
    "selectViewers cfg cnt (filter isBot (users (tables w))) (snd (db_call w)) = (userIds, w1)"
    by (cases "selectViewers cfg cnt (filter isBot (users (tables w))) (snd (db_call w))")
  obtain recs w2 where build: "buildViewRecords cfg postId userIds 0 (nat cnt) w1 = (recs, w2)"
    by (cases "buildViewRecords cfg postId userIds 0 (nat cnt) w1")
  have "insertViewBatches 0 recs w2 = (Inr u, w')"
    using assms find sel build by (simp add: generateSyntheticViews_def)
  with sel build show ?thesis by blast
qed



section \<open>Properties of the transactional update\<close>

lemma randomOctet_env:
  "tables (snd (randomOctet w)) = tables w \<and> dbFails (snd (randomOctet w)) = dbFails w"
  by (simp add: randomOctet_def Math_random_def)

lemma generateRandomIP_env:
  "tables (snd (generateRandomIP w)) = tables w \<and> dbFails (snd (generateRandomIP w)) = dbFails w"
  by (simp add: generateRandomIP_def randomOctet_def Math_random_def)

lemma generateRandomUserAgent_env:
  "tables (snd (generateRandomUserAgent w)) = tables w
   \<and> dbFails (snd (generateRandomUserAgent w)) = dbFails w"
  by (simp add: generateRandomUserAgent_def Math_random_def Let_def)

lemma buildViewRecords_env:
  "tables (snd (buildViewRecords cfg postId userIds i n w)) = tables w
   \<and> dbFails (snd (buildViewRecords cfg postId userIds i n w)) = dbFails w"
proof (induction n arbitrary: i w)
  case 0
  then show ?case by simp
next
  case (Suc n)
  obtain ip w1 where ip: "generateRandomIP w = (ip, w1)" by (cases "generateRandomIP w")
  obtain ua w2 where ua: "generateRandomUserAgent w1 = (ua, w2)"
    by (cases "generateRandomUserAgent w1")
  obtain r w3 where r: "Math_random w2 = (r, w3)" by (cases "Math_random w2")
  have "tables w3 = tables w \<and> dbFails w3 = dbFails w"
    using generateRandomIP_env [of w] generateRandomUserAgent_env [of w1] ip ua r
    by (auto simp: Math_random_def)
  moreover obtain rest w4 where rest: "buildViewRecords cfg postId userIds (Suc i) n w3 = (rest, w4)"
    by (cases "buildViewRecords cfg postId userIds (Suc i) n w3")
  moreover have "tables w4 = tables w3 \<and> dbFails w4 = dbFails w3"
    using Suc.IH [of "Suc i" w3] rest by simp
  ultimately show ?case
    using ip ua r by (simp add: Let_def)
qed

lemma insertViewBatches_tables:
  "insertViewBatches i recs w = (Inr u, w') \<Longrightarrow>
     tables w' = (tables w)\<lparr>views := views (tables w) @ drop i recs\<rparr>"
proof (induction i recs w rule: insertViewBatches.induct)
  case (1 i viewRecords w)
  show ?case
  proof (cases "i < length viewRecords")
    case False
    then show ?thesis using "1.prems" by (simp add: insertViewBatches.simps)
  next
    case True
    let ?batch = "take bulkInsertBatchSize (drop i viewRecords)"
    obtain r1 w1 where b: "View_bulkCreate ?batch w = (r1, w1)"
      by (cases "View_bulkCreate ?batch w")
    show ?thesis
    proof (cases r1)
      case (Inl e)
      then show ?thesis using "1.prems" True b
        by (subst (asm) insertViewBatches.simps) simp
    next
      case (Inr u1)
      then have next_call: "insertViewBatches (i + bulkInsertBatchSize) viewRecords w1 = (Inr u, w')"
        using "1.prems" True b by (subst (asm) insertViewBatches.simps) simp
      have step: "tables w' = (tables w1)\<lparr>views := views (tables w1)
                     @ drop (i + bulkInsertBatchSize) viewRecords\<rparr>"
        using "1.IH" [OF True b [symmetric] Inr next_call] .
      have first: "tables w1 = (tables w)\<lparr>views := views (tables w) @ ?batch\<rparr>"
        using b Inr by (auto simp: View_bulkCreate_def db_call_def split: if_splits)
      have "?batch @ drop (i + bulkInsertBatchSize) viewRecords = drop i viewRecords"
        by (metis add.commute append_take_drop_id drop_drop)
      then show ?thesis using step first by simp
    qed
  qed
qed

lemma generateSyntheticViews_tables:
  assumes "generateSyntheticViews cfg postId cnt w = (Inr u, w')"
  shows "\<exists>recs. tables w' = (tables w)\<lparr>views := views (tables w) @ recs\<rparr>"
proof -
  from generateSyntheticViews_Inr [OF assms] obtain userIds w1 recs w2 where
    sel: "selectViewers cfg cnt (filter isBot (users (tables w))) (snd (db_call w)) = (userIds, w1)"
    and build: "buildViewRecords cfg postId userIds 0 (nat cnt) w1 = (recs, w2)"
    and ins: "insertViewBatches 0 recs w2 = (Inr u, w')"
    by blast
  have "tables w1 = tables w"
    using selectViewers_result(2) [OF sel] by simp
  moreover have "tables w2 = tables w1"
    using buildViewRecords_env [of cfg postId userIds 0 "nat cnt" w1] build by simp
  ultimately show ?thesis
    using insertViewBatches_tables [OF ins] by auto
qed

lemma generateSyntheticLikes_tables:
  assumes "generateSyntheticLikes postId cnt excl w = (Inr n, w')"
  shows "\<exists>recs. tables w' = (tables w)\<lparr>likes := likes (tables w) @ recs\<rparr>"
proof -
  let ?elig = "filter (\<lambda>u. isBot u \<and> user_id u \<notin> excl) (users (tables w))"
  let ?w0 = "snd (db_call w)"
  have nofail: "\<not> dbFails w 0"
    using assms by (auto simp: generateSyntheticLikes_def User_findAll_def db_call_def)
  then have find: "User_findAll (\<lambda>u. isBot u \<and> user_id u \<notin> excl) w = (Inr ?elig, ?w0)"
    by (simp add: User_findAll_def db_call_def)
  obtain sel w1 where sel: "selectLikers cnt ?elig ?w0 = (sel, w1)"
    by (cases "selectLikers cnt ?elig ?w0")
  have tw1: "tables w1 = tables w"
    using selectLikers_result(2) [OF sel] by simp
  show ?thesis
  proof (cases "sel = []")
    case True
    then have "w' = w1"
      using assms find sel by (simp add: generateSyntheticLikes_def)
    then show ?thesis using tw1 by (intro exI [of _ "[]"]) simp
  next
    case False
    then have "tables w' = (tables w1)\<lparr>likes := likes (tables w1)
                 @ map (\<lambda>u. \<lparr> l_userId = user_id u, l_postId = postId \<rparr>) sel\<rparr>"
      using assms find sel
      by (auto simp: generateSyntheticLikes_def Like_bulkCreate_def db_call_def Let_def
               split: if_splits)
    then show ?thesis using tw1 by auto
  qed
qed

lemma andThen_InrE:
  assumes "andThen r f = (Inr y, w')"
  obtains x w1 where "r = (Inr x, w1)" and "f x w1 = (Inr y, w')"
  using assms by (auto simp: andThen_def split: prod.splits sum.splits)

lemma Post_findByPk_Inr:
  "Post_findByPk i w = (Inr found, w1) \<Longrightarrow>
     tables w1 = tables w \<and> found = find (\<lambda>p. post_id p = i) (posts (tables w))"
  by (auto simp: Post_findByPk_def db_call_def split: if_splits)

lemma Post_update_Inr:
  "Post_update pid a b w = (Inr stored, w2) \<Longrightarrow>
     a = Num (fst stored) \<and> b = Num (snd stored)
     \<and> tables w2 = (tables w)\<lparr>posts :=
         map (\<lambda>p. if post_id p = pid then p\<lparr>viewCount := fst stored, likeCount := snd stored\<rparr>
                  else p) (posts (tables w))\<rparr>"
  by (auto simp: Post_update_def db_call_def split: if_splits jsnum.splits)

lemma createAnalyticsEntry_Inr:
  "createAnalyticsEntry e w = (Inr x, w') \<Longrightarrow>
     tables w' = (tables w)\<lparr>analyticsEntries := analyticsEntries (tables w) @ [e]\<rparr>"
  by (auto simp: createAnalyticsEntry_def db_call_def split: if_splits)

lemma Like_findAll_post_Inr:
  "Like_findAll_post pid w = (Inr ls, w') \<Longrightarrow> tables w' = tables w"
  by (auto simp: Like_findAll_post_def db_call_def split: if_splits)

lemma commit_Inr: "commit w = (Inr x, w') \<Longrightarrow> tables w' = tables w"
  by (auto simp: commit_def db_call_def split: if_splits)

lemma newViews_step_posts:
  "(if c then generateSyntheticViews cfg pid n w else (Inr (), w)) = (Inr x, w')
     \<Longrightarrow> posts (tables w') = posts (tables w)"
  using generateSyntheticViews_tables by (fastforce split: if_splits)

lemma newLikes_step_posts:
  assumes "(if c then andThen (Like_findAll_post pid w)
                         (\<lambda>existingLikes w5. generateSyntheticLikes pid n
                                               (set (map l_userId existingLikes)) w5)
            else (Inr 0, w)) = (Inr x, w')"
  shows "posts (tables w') = posts (tables w)"
proof (cases c)
  case False
  then show ?thesis using assms by simp
next
  case True
  then have "andThen (Like_findAll_post pid w)
                (\<lambda>existingLikes w5. generateSyntheticLikes pid n
                                      (set (map l_userId existingLikes)) w5) = (Inr x, w')"
    using assms by simp
  then obtain ex w5 where q: "Like_findAll_post pid w = (Inr ex, w5)"
    and g: "generateSyntheticLikes pid n (set (map l_userId ex)) w5 = (Inr x, w')"
    by (rule andThen_InrE)
  show ?thesis
    using Like_findAll_post_Inr [OF q] generateSyntheticLikes_tables [OF g] by auto
qed

text \<open>What a committed transaction leaves in the post table.\<close>

lemma applyMetricsUpdateBody_posts:
  assumes "applyMetricsUpdateBody cfg post finalViews finalLikes sim elapsedHours w = (Inr u, w')"
  shows "\<exists>lockedPost v l.
           find (\<lambda>p. post_id p = post_id post) (posts (tables w)) = Some lockedPost
         \<and> jmax finalViews (Num (viewCount lockedPost)) = Num v
         \<and> jmin (jmax finalLikes (Num (likeCount lockedPost))) (Num v) = Num l
         \<and> posts (tables w') =
             map (\<lambda>p. if post_id p = post_id lockedPost then p\<lparr>viewCount := v, likeCount := l\<rparr>
                      else p) (posts (tables w))"
  using assms unfolding applyMetricsUpdateBody_def
proof (elim andThen_InrE, goal_cases)
  case (1 found w1)
  note f = Post_findByPk_Inr [OF 1(1)]
  obtain lockedPost where lp: "found = Some lockedPost"
    using 1(2) by (cases found) auto
  from 1(2) show ?case
    unfolding lp option.case Let_def
  proof (elim andThen_InrE, goal_cases)
    case (1 stored w2 x3 w3 x4 w4 x6 w6)
    note upd = Post_update_Inr [OF 1(1)]
    have "posts (tables w3) = posts (tables w2)"
      using createAnalyticsEntry_Inr [OF 1(2)] by simp
    moreover have "posts (tables w4) = posts (tables w3)"
      using newViews_step_posts [OF 1(3)] .
    moreover have "posts (tables w6) = posts (tables w4)"
      using newLikes_step_posts [OF 1(4)] .
    moreover have "posts (tables w') = posts (tables w6)"
      using commit_Inr [OF 1(5)] by simp
    moreover have av: "jmax finalViews (Num (viewCount lockedPost)) = Num (fst stored)"
      using upd [THEN conjunct1] .
    moreover have "jmin (jmax finalLikes (Num (likeCount lockedPost)))
                     (jmax finalViews (Num (viewCount lockedPost))) = Num (snd stored)"
      using upd [THEN conjunct2, THEN conjunct1] .
    then have "jmin (jmax finalLikes (Num (likeCount lockedPost))) (Num (fst stored))
                 = Num (snd stored)"
      unfolding av .
    moreover have "posts (tables w2) =
        map (\<lambda>p. if post_id p = post_id lockedPost
                 then p\<lparr>viewCount := fst stored, likeCount := snd stored\<rparr> else p)
            (posts (tables w))"
      using upd f by simp
    ultimately show ?case
      using f lp
      by (intro exI [of _ lockedPost]) (rule exI [of _ "fst stored"], rule exI [of _ "snd stored"], simp)
  qed
qed

lemma applyMetricsUpdate_posts:
  assumes "applyMetricsUpdate cfg post finalViews finalLikes sim elapsedHours w = (Inr u, w')"
  shows "\<exists>lockedPost v l.
           find (\<lambda>p. post_id p = post_id post) (posts (tables w)) = Some lockedPost
         \<and> jmax finalViews (Num (viewCount lockedPost)) = Num v
         \<and> jmin (jmax finalLikes (Num (likeCount lockedPost))) (Num v) = Num l
         \<and> posts (tables w') =
             map (\<lambda>p. if post_id p = post_id lockedPost then p\<lparr>viewCount := v, likeCount := l\<rparr>
                      else p) (posts (tables w))"
proof -
  obtain r0 w0 where b: "beginTransaction w = (r0, w0)" by (cases "beginTransaction w")
  then have t0: "tables w0 = tables w"
    by (auto simp: beginTransaction_def db_call_def split: if_splits)
  obtain u0 where "r0 = Inr u0"
    using assms b by (cases r0) (auto simp: applyMetricsUpdate_def)
  then have "applyMetricsUpdateBody cfg post finalViews finalLikes sim elapsedHours w0 = (Inr u, w')"
    using assms b by (auto simp: applyMetricsUpdate_def split: prod.splits sum.splits)
  from applyMetricsUpdateBody_posts [OF this] show ?thesis
    unfolding t0 .
qed

lemma find_map_same_key:
  assumes "\<And>p. post_id (f p) = post_id p"
  shows "find (\<lambda>p. post_id p = i) (map f xs) = map_option f (find (\<lambda>p. post_id p = i) xs)"
  using assms by (induction xs) auto

lemma jmax_Num_lower: "jmax x (Num a) = Num v \<Longrightarrow> a \<le> v"
  by (cases x) (auto split: if_splits)

lemma jmin_jmax_Num_bounds:
  assumes "jmin (jmax x (Num a)) (Num v) = Num l"
  shows "l \<le> v \<and> min a v \<le> l"
  using assms by (cases x) (auto simp: min_def max_def split: if_splits)

lemmas eval_defs =
  applyMetricsUpdate_def applyMetricsUpdateBody_def beginTransaction_def commit_def
  andThen_def Post_findByPk_def Post_update_def createAnalyticsEntry_def db_call_def
  generateSyntheticViews_def User_findAll_def selectViewers_def shuffleArray_def
  swapElements_def slice0_def Math_random_def Date_now_def generateRandomIP_def randomOctet_def
  generateRandomUserAgent_def insertViewBatches.simps View_bulkCreate_def
  generateSyntheticLikes_def selectLikers_def Like_findAll_post_def Like_bulkCreate_def
  updateSingleSimulation_def isSimulationComplete_def calculateElapsedTime_def
  calculateTargetMetrics_def curveViews_def curveLikes_def calculateLinearViews_def
  calculateProgress_def adjustMetrics_def jreal_def
  examplePost_def exampleWorld_def hardcodedConfig_def
  exampleSimulation_def bulkInsertBatchSize_def Let_def numeral_2_eq_2 numeral_3_eq_3

text \<open>
  C1 (amended). For every update pass that commits, the view counter written is at least
  the view counter read under the lock, and after the write the like count is at most the
  view count. The like counter written is at least the one read under the lock whenever
  the row read under the lock itself has at most as many likes as views.
\<close>

theorem C1_views_monotone_likes_bounded:
  assumes "applyMetricsUpdate cfg post finalViews finalLikes sim elapsedHours w = (Inr u, w')"
  shows "\<exists>lockedPost written.
           find (\<lambda>p. post_id p = post_id post) (posts (tables w)) = Some lockedPost
         \<and> find (\<lambda>p. post_id p = post_id post) (posts (tables w')) = Some written
         \<and> viewCount lockedPost \<le> viewCount written
         \<and> likeCount written \<le> viewCount written
         \<and> (likeCount lockedPost \<le> viewCount lockedPost \<longrightarrow> likeCount lockedPost \<le> likeCount written)"
proof -
  from applyMetricsUpdate_posts [OF assms] obtain lockedPost v l where
    lp: "find (\<lambda>p. post_id p = post_id post) (posts (tables w)) = Some lockedPost"
    and v: "jmax finalViews (Num (viewCount lockedPost)) = Num v"
    and l: "jmin (jmax finalLikes (Num (likeCount lockedPost))) (Num v) = Num l"
    and ps: "posts (tables w') =
             map (\<lambda>p. if post_id p = post_id lockedPost then p\<lparr>viewCount := v, likeCount := l\<rparr>
                      else p) (posts (tables w))"
    by blast
  have id: "post_id lockedPost = post_id post"
    using lp by (auto simp: find_Some_iff)
  let ?f = "\<lambda>p. if post_id p = post_id lockedPost then p\<lparr>viewCount := v, likeCount := l\<rparr> else p"
  have "find (\<lambda>p. post_id p = post_id post) (posts (tables w')) = map_option ?f (Some lockedPost)"
    unfolding ps using find_map_same_key [of ?f "post_id post" "posts (tables w)"] lp by simp
  then have wr: "find (\<lambda>p. post_id p = post_id post) (posts (tables w'))
                 = Some (lockedPost\<lparr>viewCount := v, likeCount := l\<rparr>)"
    by simp
  have "viewCount lockedPost \<le> v"
    using jmax_Num_lower [OF v] .
  moreover have "l \<le> v" "min (likeCount lockedPost) v \<le> l"
    using jmin_jmax_Num_bounds [OF l] by simp_all
  ultimately show ?thesis
    using lp wr by (intro exI [of _ lockedPost] exI [of _ "lockedPost\<lparr>viewCount := v, likeCount := l\<rparr>"]) auto
qed

lemma frac_half [simp]: "frac (1 / 2 :: real) = 1 / 2"
  by (simp add: frac_def)

text \<open>
  A row with 10 views and 20 likes, as another writer of the shared row may leave it.
  Half way through a linear simulation from 4 to 20 views the target is 12 views: the
  update step raises the views to 12, clamps the likes to the views and so lowers the
  like counter from 20 to 12.
\<close>

theorem C1_counterexample:
  "fst (updateSingleSimulation hardcodedConfig 1 lowTargetSimulation (Some likesAboveViewsPost)
          likesAboveViewsWorld)
     = Inr (Update 1 (Num 12) (Num 12) (Num 50) (Num 2) (Num (- 8)))
   \<and> map likeCount (posts (tables likesAboveViewsWorld)) = [20]
   \<and> map likeCount (posts (tables (snd (updateSingleSimulation hardcodedConfig 1
          lowTargetSimulation (Some likesAboveViewsPost) likesAboveViewsWorld)))) = [12]"
  by (simp add: eval_defs likesAboveViewsWorld_def likesAboveViewsPost_def
        lowTargetSimulation_def)

theorem C1_witness:
  "fst (applyMetricsUpdate hardcodedConfig examplePost (Num 102) (Num 6) exampleSimulation 12
          exampleWorld) = Inr ()
   \<and> (\<exists>lockedPost written.
         find (\<lambda>p. post_id p = post_id examplePost) (posts (tables exampleWorld)) = Some lockedPost
       \<and> find (\<lambda>p. post_id p = post_id examplePost)
            (posts (tables (snd (applyMetricsUpdate hardcodedConfig examplePost (Num 102) (Num 6)
               exampleSimulation 12 exampleWorld)))) = Some written
       \<and> viewCount lockedPost \<le> viewCount written
       \<and> likeCount written \<le> viewCount written
       \<and> likeCount lockedPost \<le> viewCount lockedPost
       \<and> likeCount lockedPost \<le> likeCount written)"
proof -
  let ?r = "applyMetricsUpdate hardcodedConfig examplePost (Num 102) (Num 6) exampleSimulation 12
              exampleWorld"
  have ok: "fst ?r = Inr ()"
    by (simp add: eval_defs)
  then have "?r = (Inr (), snd ?r)"
    by (metis prod.collapse)
  from C1_views_monotone_likes_bounded [OF this] obtain lockedPost written where
    a: "find (\<lambda>p. post_id p = post_id examplePost) (posts (tables exampleWorld)) = Some lockedPost"
    and b: "find (\<lambda>p. post_id p = post_id examplePost) (posts (tables (snd ?r))) = Some written"
    and c: "viewCount lockedPost \<le> viewCount written" "likeCount written \<le> viewCount written"
      "likeCount lockedPost \<le> viewCount lockedPost \<longrightarrow> likeCount lockedPost \<le> likeCount written"
    by blast
  have "lockedPost = examplePost"
    using a by (simp add: exampleWorld_def)
  then have d: "likeCount lockedPost \<le> viewCount lockedPost"
    by (simp add: examplePost_def)
  with a b c ok show ?thesis by blast
qed

section \<open>Properties of the target metrics\<close>

lemma variance_range:
  assumes "0 \<le> (r::real)" and "r < 1" and "0 \<le> (width::real)"
  shows "\<bar>r * width - width / 2\<bar> \<le> width / 2"
proof -
  have "r * width \<le> 1 * width"
    using mult_right_mono [of r 1 width] assms by simp
  moreover have "0 \<le> r * width"
    using assms by simp
  ultimately show ?thesis by linarith
qed

lemma jitter_floor_bounds:
  assumes "\<bar>d\<bar> \<le> h"
  shows "real_of_int \<lfloor>t * (1 + d)\<rfloor> \<le> t + \<bar>t\<bar> * h
       \<and> t - \<bar>t\<bar> * h - 1 < real_of_int \<lfloor>t * (1 + d)\<rfloor>"
proof -
  have "\<bar>t * d\<bar> \<le> \<bar>t\<bar> * h"
    using assms by (simp add: abs_mult mult_left_mono)
  then have "t * d \<le> \<bar>t\<bar> * h" and "- (\<bar>t\<bar> * h) \<le> t * d"
    by (simp_all add: abs_le_iff)
  moreover have "t * (1 + d) = t + t * d"
    by (simp add: algebra_simps)
  moreover have "real_of_int \<lfloor>t * (1 + d)\<rfloor> \<le> t * (1 + d)"
    and "t * (1 + d) - 1 < real_of_int \<lfloor>t * (1 + d)\<rfloor>"
    by linarith+
  ultimately show ?thesis by linarith
qed

lemma jmax_floor_not_below: "\<not> jgt (Num c) (jmax x (Num c))"
  by (cases x) auto

lemma jmin_not_above: "\<not> jgt (jmin a b) b"
  by (cases a; cases b) auto

lemma likes_floor_not_below:
  "cl \<le> cv \<Longrightarrow> \<not> jgt (Num cl) (jmin (jmax y (Num cl)) (jmax x (Num cv)))"
  by (cases x; cases y) (auto simp: min_def max_def)

text \<open>
  C2 (amended). In every per-target update step the random variation multiplies the
  target itself (not the delta) by a factor within half the configured range around 1,
  that is within 5% for views and 7.5% for likes with the ranges 0.1 and 0.15, and rounds
  the product down: the varied target is at most the target plus that share of it, and
  falls short of the target minus that share by less than one. The clamping that follows
  never leaves the final views below the current view count nor the final likes above the
  final views, and it never leaves the final likes below the current like count provided
  the current like count is at most the current view count.
\<close>

theorem C2_jitter_bounds_and_floor:
  assumes "0 \<le> rv" and "rv < 1" and "0 \<le> rl" and "rl < 1"
    and "0 \<le> viewVarianceRange cfg" and "0 \<le> likeVarianceRange cfg"
    and "calculateTargetMetrics cfg sim elapsedHours rv rl = (targetViews, targetLikes)"
    and "adjustMetrics targetViews targetLikes curViews curLikes
           = (finalViews, finalLikes, hasChanges)"
  shows "targetViews = jfloor (jmul (jreal (curveViews sim elapsedHours))
                          (Num (1 + (rv * viewVarianceRange cfg - viewVarianceRange cfg / 2))))
       \<and> \<bar>rv * viewVarianceRange cfg - viewVarianceRange cfg / 2\<bar> \<le> viewVarianceRange cfg / 2
       \<and> targetLikes = jfloor (jmul (curveLikes sim (curveViews sim elapsedHours))
                          (Num (1 + (rl * likeVarianceRange cfg - likeVarianceRange cfg / 2))))
       \<and> \<bar>rl * likeVarianceRange cfg - likeVarianceRange cfg / 2\<bar> \<le> likeVarianceRange cfg / 2
       \<and> (\<forall>t. curveViews sim elapsedHours = Num t \<longrightarrow>
            (\<exists>v. targetViews = Num v
               \<and> real_of_int v \<le> real_of_int t + \<bar>real_of_int t\<bar> * (viewVarianceRange cfg / 2)
               \<and> real_of_int t - \<bar>real_of_int t\<bar> * (viewVarianceRange cfg / 2) - 1 < real_of_int v))
       \<and> (\<forall>l. curveLikes sim (curveViews sim elapsedHours) = Num l \<longrightarrow>
            (\<exists>v. targetLikes = Num v
               \<and> real_of_int v \<le> l + \<bar>l\<bar> * (likeVarianceRange cfg / 2)
               \<and> l - \<bar>l\<bar> * (likeVarianceRange cfg / 2) - 1 < real_of_int v))
       \<and> \<not> jgt (Num curViews) finalViews
       \<and> \<not> jgt finalLikes finalViews
       \<and> (curLikes \<le> curViews \<longrightarrow> \<not> jgt (Num curLikes) finalLikes)"
proof -
  let ?dv = "rv * viewVarianceRange cfg - viewVarianceRange cfg / 2"
  let ?dl = "rl * likeVarianceRange cfg - likeVarianceRange cfg / 2"
  have tv: "targetViews = jfloor (jmul (jreal (curveViews sim elapsedHours)) (Num (1 + ?dv)))"
    and tl: "targetLikes = jfloor (jmul (curveLikes sim (curveViews sim elapsedHours)) (Num (1 + ?dl)))"
    using assms(7) by (simp_all add: calculateTargetMetrics_def Let_def)
  have dv: "\<bar>?dv\<bar> \<le> viewVarianceRange cfg / 2"
    using variance_range [OF assms(1,2,5)] .
  have dl: "\<bar>?dl\<bar> \<le> likeVarianceRange cfg / 2"
    using variance_range [OF assms(3,4,6)] .
  have fv: "finalViews = jmax targetViews (Num curViews)"
    and fl: "finalLikes = jmin (jmax targetLikes (Num curLikes)) finalViews"
    using assms(8) by (auto simp: adjustMetrics_def Let_def)
  have views: "\<forall>t. curveViews sim elapsedHours = Num t \<longrightarrow>
            (\<exists>v. targetViews = Num v
               \<and> real_of_int v \<le> real_of_int t + \<bar>real_of_int t\<bar> * (viewVarianceRange cfg / 2)
               \<and> real_of_int t - \<bar>real_of_int t\<bar> * (viewVarianceRange cfg / 2) - 1 < real_of_int v)"
  proof (intro allI impI)
    fix t assume "curveViews sim elapsedHours = Num t"
    then have "targetViews = Num \<lfloor>real_of_int t * (1 + ?dv)\<rfloor>"
      using tv by (simp add: jreal_def)
    then show "\<exists>v. targetViews = Num v
               \<and> real_of_int v \<le> real_of_int t + \<bar>real_of_int t\<bar> * (viewVarianceRange cfg / 2)
               \<and> real_of_int t - \<bar>real_of_int t\<bar> * (viewVarianceRange cfg / 2) - 1 < real_of_int v"
      using jitter_floor_bounds [OF dv, of "real_of_int t"]
      by blast
  qed
  have likes: "\<forall>l. curveLikes sim (curveViews sim elapsedHours) = Num l \<longrightarrow>
            (\<exists>v. targetLikes = Num v
               \<and> real_of_int v \<le> l + \<bar>l\<bar> * (likeVarianceRange cfg / 2)
               \<and> l - \<bar>l\<bar> * (likeVarianceRange cfg / 2) - 1 < real_of_int v)"
  proof (intro allI impI)
    fix l assume "curveLikes sim (curveViews sim elapsedHours) = Num l"
    then have "targetLikes = Num \<lfloor>l * (1 + ?dl)\<rfloor>"
      using tl by simp
    then show "\<exists>v. targetLikes = Num v
               \<and> real_of_int v \<le> l + \<bar>l\<bar> * (likeVarianceRange cfg / 2)
               \<and> l - \<bar>l\<bar> * (likeVarianceRange cfg / 2) - 1 < real_of_int v"
      using jitter_floor_bounds [OF dl, of l]
      by blast
  qed
  have c1: "\<not> jgt (Num curViews) finalViews"
    unfolding fv by (rule jmax_floor_not_below)
  have c2: "\<not> jgt finalLikes finalViews"
    unfolding fl by (rule jmin_not_above)
  have c3: "curLikes \<le> curViews \<longrightarrow> \<not> jgt (Num curLikes) finalLikes"
    unfolding fl fv using likes_floor_not_below by blast
  show ?thesis
    using tv dv tl dl views likes c1 c2 c3 by (intro conjI)
qed

lemma smallTarget_curve: "curveViews smallTargetSimulation 1 = Num 10"
  by (simp add: curveViews_def calculateLinearViews_def smallTargetSimulation_def)

lemma smallTarget_metrics:
  "calculateTargetMetrics hardcodedConfig smallTargetSimulation 1 (1 / 4) (1 / 2) = (Num 9, Num 0)"
proof -
  have fields: "likeRatio smallTargetSimulation = 1 / 20" "maxLikes smallTargetSimulation = 50"
    by (simp_all add: smallTargetSimulation_def)
  show ?thesis
    by (simp add: calculateTargetMetrics_def curveLikes_def smallTarget_curve jreal_def
          hardcodedConfig_def fields Let_def)
qed

text \<open>
  A target of 10 views becomes 9 with the variation -2.5%, a change of 10%; and with 20
  current likes on 3 current views the final likes are clamped to the 9 final views.
\<close>

theorem C2_counterexample:
  "curveViews smallTargetSimulation 1 = Num 10
   \<and> fst (calculateTargetMetrics hardcodedConfig smallTargetSimulation 1 (1 / 4) (1 / 2)) = Num 9
   \<and> \<not> \<bar>9 - 10\<bar> \<le> (5 / 100) * (10 :: real)
   \<and> adjustMetrics (Num 9) (Num 0) 3 20 = (Num 9, Num 9, True)"
  by (simp add: smallTarget_curve smallTarget_metrics adjustMetrics_def Let_def)

theorem C2_witness:
  "(0::real) \<le> 1 / 4 \<and> (1 / 4 :: real) < 1 \<and> (0::real) \<le> 1 / 2 \<and> (1 / 2 :: real) < 1
   \<and> 0 \<le> viewVarianceRange hardcodedConfig \<and> 0 \<le> likeVarianceRange hardcodedConfig
   \<and> calculateTargetMetrics hardcodedConfig smallTargetSimulation 1 (1 / 4) (1 / 2) = (Num 9, Num 0)
   \<and> adjustMetrics (Num 9) (Num 0) 3 2 = (Num 9, Num 2, True)
   \<and> curveViews smallTargetSimulation 1 = Num 10
   \<and> Num 9 = jfloor (jmul (jreal (Num 10)) (Num (1 + (1 / 4 * (1 / 10) - 1 / 10 / 2))))
   \<and> real_of_int 10 - \<bar>real_of_int 10\<bar> * (viewVarianceRange hardcodedConfig / 2) - 1 < real_of_int 9
   \<and> (2::int) \<le> 3 \<and> \<not> jgt (Num (2::int)) (Num 2)"
proof -
  have h: "(0::real) \<le> 1 / 4" "(1 / 4 :: real) < 1" "(0::real) \<le> 1 / 2" "(1 / 2 :: real) < 1"
    "0 \<le> viewVarianceRange hardcodedConfig" "0 \<le> likeVarianceRange hardcodedConfig"
    by (simp_all add: hardcodedConfig_def)
  have a: "adjustMetrics (Num 9) (Num 0) 3 2 = (Num 9, Num 2, True)"
    by (simp add: adjustMetrics_def Let_def)
  have v: "viewVarianceRange hardcodedConfig = 1 / 10"
    by (simp add: hardcodedConfig_def)
  from C2_jitter_bounds_and_floor [OF h smallTarget_metrics a] smallTarget_curve
  have "Num 9 = jfloor (jmul (jreal (Num 10))
                  (Num (1 + (1 / 4 * viewVarianceRange hardcodedConfig
                             - viewVarianceRange hardcodedConfig / 2))))"
    and "\<exists>v. Num 9 = Num v
          \<and> real_of_int 10 - \<bar>real_of_int 10\<bar> * (viewVarianceRange hardcodedConfig / 2) - 1 < real_of_int v"
    and "(2::int) \<le> 3 \<longrightarrow> \<not> jgt (Num (2::int)) (Num 2)"
    by (simp, blast, blast)
  then show ?thesis
    using h a smallTarget_metrics smallTarget_curve unfolding v by auto
qed

section \<open>Properties of the update step\<close>

text \<open>
  The preloaded post has 100 views and the row read under the lock 150: the update
  commits, the view counter stays at 150 and one like is added, and the result reports
  120 views and 20 new views.
\<close>

lemma updateSingleSimulation_stale_preload:
  "fst (updateSingleSimulation hardcodedConfig 1 exampleSimulation (Some examplePost)
          stalePostWorld)
     = Inr (Update 1 (Num 120) (Num 6) (Num 50) (Num 20) (Num 1))
   \<and> map viewCount (posts (tables stalePostWorld)) = [150]
   \<and> map likeCount (posts (tables stalePostWorld)) = [5]
   \<and> map viewCount (posts (tables (snd (updateSingleSimulation hardcodedConfig 1
          exampleSimulation (Some examplePost) stalePostWorld)))) = [150]
   \<and> map likeCount (posts (tables (snd (updateSingleSimulation hardcodedConfig 1
          exampleSimulation (Some examplePost) stalePostWorld)))) = [6]"
  by (simp add: eval_defs stalePostWorld_def)

text \<open>
  The earlier updateSingleSimulation does build its result from the values recomputed
  under the lock, but reads them outside the block that declares them: the transaction
  commits, raising the views from 118 to 120, and the call then fails.
\<close>

lemma updateSingleSimulation_v1_ReferenceError:
  "fst (updateSingleSimulation_v1 1 exampleSimulation (Some nearTargetPost) nearTargetWorld)
     = Inl ReferenceError
   \<and> map viewCount (posts (tables nearTargetWorld)) = [118]
   \<and> map viewCount (posts (tables (snd (updateSingleSimulation_v1 1 exampleSimulation
          (Some nearTargetPost) nearTargetWorld)))) = [120]"
  by (simp add: eval_defs updateSingleSimulation_v1_def lockedUpdate_v1_def
        generateSyntheticViews_v1_def generateSyntheticLikes_v1_def
        insertViewBatches_v1.simps nearTargetWorld_def nearTargetPost_def)

text \<open>
  C5. For every non-complete update in which the counters change and the transaction
  commits, updateSingleSimulation should return a success result carrying the final
  written view and like counts, an isComplete flag of false, and the delta that was
  applied. Neither version does: the service builds its result from the counts computed
  before the locked read and their difference to the preloaded post, which are not the
  written counts and the applied delta when the row has changed in between; the earlier
  service fails with a ReferenceError after the commit.
\<close>

theorem C5_result_is_not_the_written_counts:
  "(fst (updateSingleSimulation hardcodedConfig 1 exampleSimulation (Some examplePost)
          stalePostWorld)
     = Inr (Update 1 (Num 120) (Num 6) (Num 50) (Num 20) (Num 1))
   \<and> map viewCount (posts (tables stalePostWorld)) = [150]
   \<and> map likeCount (posts (tables stalePostWorld)) = [5]
   \<and> map viewCount (posts (tables (snd (updateSingleSimulation hardcodedConfig 1
          exampleSimulation (Some examplePost) stalePostWorld)))) = [150]
   \<and> map likeCount (posts (tables (snd (updateSingleSimulation hardcodedConfig 1
          exampleSimulation (Some examplePost) stalePostWorld)))) = [6])
   \<and> (fst (updateSingleSimulation_v1 1 exampleSimulation (Some nearTargetPost) nearTargetWorld)
     = Inl ReferenceError
   \<and> map viewCount (posts (tables nearTargetWorld)) = [118]
   \<and> map viewCount (posts (tables (snd (updateSingleSimulation_v1 1 exampleSimulation
          (Some nearTargetPost) nearTargetWorld)))) = [120])"
  by (rule conjI [OF updateSingleSimulation_stale_preload updateSingleSimulation_v1_ReferenceError])

lemma adjustMetrics_unchanged:
  assumes "adjustMetrics targetViews targetLikes cv cl = (Num cv, Num cl, hasChanges)"
  shows "\<not> hasChanges"
  using assms by (auto simp: adjustMetrics_def Let_def)

text \<open>
  C6. For every target whose computed final counters equal its current counters, the
  update step is a no-op: it reports success with zero deltas and performs no writes, so
  no counter update, no synthetic view or like records and no analytics snapshot: the
  tables are the same after the step. The first four hypotheses name what the
  environment answers: the simulation has not reached its duration, the time read for
  the elapsed hours, and the two random numbers of the variation.
\<close>

theorem C6_noop_when_final_equals_current:
  assumes "isSimulationComplete sim w = (False, w1)"
    and "Date_now w1 = (now, w2)"
    and "Math_random w2 = (rv, w3)"
    and "Math_random w3 = (rl, w4)"
    and "calculateTargetMetrics cfg sim (calculateElapsedTime now (startTime sim)) rv rl
           = (targetViews, targetLikes)"
    and "adjustMetrics targetViews targetLikes (viewCount post) (likeCount post)
           = (Num (viewCount post), Num (likeCount post), hasChanges)"
  shows "updateSingleSimulation cfg mediaId sim (Some post) w
           = (Inr (Update mediaId (Num (viewCount post)) (Num (likeCount post))
                     (calculateProgress (calculateElapsedTime now (startTime sim))
                        (growthDurationHours sim))
                     (Num 0) (Num 0)), w4)
         \<and> tables w4 = tables w"
proof -
  have nc: "\<not> hasChanges"
    using adjustMetrics_unchanged [OF assms(6)] .
  have "tables w1 = tables w"
    using assms(1) by (auto simp: isSimulationComplete_def Date_now_def Let_def)
  moreover have "tables w2 = tables w1"
    using assms(2) by (auto simp: Date_now_def)
  moreover have "tables w3 = tables w2" "tables w4 = tables w3"
    using assms(3,4) by (auto simp: Math_random_def)
  ultimately have "tables w4 = tables w" by simp
  moreover have "updateSingleSimulation cfg mediaId sim (Some post) w
           = (Inr (Update mediaId (Num (viewCount post)) (Num (likeCount post))
                     (calculateProgress (calculateElapsedTime now (startTime sim))
                        (growthDurationHours sim))
                     (Num 0) (Num 0)), w4)"
    unfolding updateSingleSimulation_def
    using assms nc by (simp add: Let_def)
  ultimately show ?thesis by simp
qed

theorem C6_witness:
  "updateSingleSimulation hardcodedConfig 1 exampleSimulation (Some atTargetPost) atTargetWorld
     = (Inr (Update 1 (Num 120) (Num 6) (Num 50) (Num 0) (Num 0)),
        atTargetWorld\<lparr>clock := (\<lambda>n. clock atTargetWorld (Suc (Suc n))),
                       random := (\<lambda>n. random atTargetWorld (Suc (Suc n)))\<rparr>)
   \<and> tables (atTargetWorld\<lparr>clock := (\<lambda>n. clock atTargetWorld (Suc (Suc n))),
                       random := (\<lambda>n. random atTargetWorld (Suc (Suc n)))\<rparr>) = tables atTargetWorld"
proof -
  let ?w1 = "atTargetWorld\<lparr>clock := (\<lambda>n. clock atTargetWorld (Suc n))\<rparr>"
  let ?w2 = "atTargetWorld\<lparr>clock := (\<lambda>n. clock atTargetWorld (Suc (Suc n)))\<rparr>"
  let ?w3 = "atTargetWorld\<lparr>clock := (\<lambda>n. clock atTargetWorld (Suc (Suc n))),
                            random := (\<lambda>n. random atTargetWorld (Suc n))\<rparr>"
  let ?w4 = "atTargetWorld\<lparr>clock := (\<lambda>n. clock atTargetWorld (Suc (Suc n))),
                            random := (\<lambda>n. random atTargetWorld (Suc (Suc n)))\<rparr>"
  have 1: "isSimulationComplete exampleSimulation atTargetWorld = (False, ?w1)"
    by (simp add: isSimulationComplete_def Date_now_def exampleSimulation_def atTargetWorld_def
          exampleWorld_def Let_def)
  have 2: "Date_now ?w1 = (43200000, ?w2)"
    by (simp add: Date_now_def atTargetWorld_def exampleWorld_def)
  have 3: "Math_random ?w2 = (1 / 2, ?w3)"
    by (simp add: Math_random_def atTargetWorld_def exampleWorld_def)
  have 4: "Math_random ?w3 = (1 / 2, ?w4)"
    by (simp add: Math_random_def atTargetWorld_def exampleWorld_def)
  have e: "calculateElapsedTime 43200000 (startTime exampleSimulation) = 12"
    by (simp add: calculateElapsedTime_def exampleSimulation_def)
  have 5: "calculateTargetMetrics hardcodedConfig exampleSimulation
             (calculateElapsedTime 43200000 (startTime exampleSimulation)) (1 / 2) (1 / 2)
           = (Num 120, Num 6)"
    unfolding e
    by (simp add: calculateTargetMetrics_def curveViews_def curveLikes_def
          calculateLinearViews_def jreal_def exampleSimulation_def hardcodedConfig_def Let_def)
  have 6: "adjustMetrics (Num 120) (Num 6) (viewCount atTargetPost) (likeCount atTargetPost)
           = (Num (viewCount atTargetPost), Num (likeCount atTargetPost), False)"
    by (simp add: adjustMetrics_def atTargetPost_def examplePost_def Let_def)
  have p: "calculateProgress 12 (growthDurationHours exampleSimulation) = Num 50"
    by (simp add: calculateProgress_def exampleSimulation_def)
  from C6_noop_when_final_equals_current [OF 1 2 3 4 5 6, of 1]
  show ?thesis
    unfolding e p by (simp add: atTargetPost_def examplePost_def)
qed

section \<open>Properties of the batch pass\<close>

lemma updateSingleSimulation_mediaId:
  assumes "updateSingleSimulation cfg mediaId sim preloadedPost w = (Inr res, w')"
  shows "r_mediaId res = mediaId"
proof -
  obtain c w1 where c: "isSimulationComplete sim w = (c, w1)"
    by (cases "isSimulationComplete sim w")
  show ?thesis
  proof (cases c)
    case True
    then show ?thesis using assms c by (auto simp: updateSingleSimulation_def)
  next
    case False
    let ?fetch = "case preloadedPost of Some p \<Rightarrow> (Inr (Some p), w1)
                  | None \<Rightarrow> Post_findByPk mediaId w1"
    obtain r2 w2 where f: "?fetch = (r2, w2)" by (cases ?fetch)
    obtain now w3 where n: "Date_now w2 = (now, w3)" by (cases "Date_now w2")
    obtain rv w4 where rv: "Math_random w3 = (rv, w4)" by (cases "Math_random w3")
    obtain rl w5 where rl: "Math_random w4 = (rl, w5)" by (cases "Math_random w4")
    obtain tv tl where t: "calculateTargetMetrics cfg sim
        (calculateElapsedTime now (startTime sim)) rv rl = (tv, tl)"
      by (cases "calculateTargetMetrics cfg sim (calculateElapsedTime now (startTime sim)) rv rl")
    obtain fv fl hc where a: "adjustMetrics tv tl (viewCount (the (projr r2)))
        (likeCount (the (projr r2))) = (fv, fl, hc)"
      by (cases "adjustMetrics tv tl (viewCount (the (projr r2))) (likeCount (the (projr r2)))")
    show ?thesis
      using assms c False f n rv rl t a
      unfolding updateSingleSimulation_def
      by (auto simp: Let_def split: sum.splits option.splits if_splits prod.splits)
  qed
qed

lemma updateLoop_ids:
  "updateLoop cfg ids fetched reg w = (results, reg', w') \<Longrightarrow> map r_mediaId results = ids"
proof (induction ids arbitrary: reg w results reg' w')
  case Nil
  then show ?case by simp
next
  case (Cons mediaId mediaIds)
  let ?step = "case find (\<lambda>p. post_id p = mediaId) (rev fetched) of
              None \<Rightarrow> (Inl (PostNotFound mediaId), w)
            | Some post \<Rightarrow>
                (case getSimulation mediaId reg of
                   None \<Rightarrow> (case Date_now w of (now, w') \<Rightarrow> (Inl TypeError, w'))
                 | Some sim \<Rightarrow> updateSingleSimulation cfg mediaId sim (Some post) w)"
  obtain r w1 where s: "?step = (r, w1)" by (cases ?step)
  show ?case
  proof (cases r)
    case (Inl e)
    obtain rs reg1 w2 where rest: "updateLoop cfg mediaIds fetched reg w1 = (rs, reg1, w2)"
      by (cases "updateLoop cfg mediaIds fetched reg w1")
    then have "results = Failure mediaId e # rs"
      using Cons.prems s Inl by simp
    then show ?thesis using Cons.IH [OF rest] by simp
  next
    case (Inr result)
    let ?reg1 = "if isComplete result then snd (stopSimulation mediaId reg) else reg"
    obtain rs reg2 w2 where rest: "updateLoop cfg mediaIds fetched ?reg1 w1 = (rs, reg2, w2)"
      by (cases "updateLoop cfg mediaIds fetched ?reg1 w1")
    then have res: "results = result # rs"
      using Cons.prems s Inr by (simp add: Let_def)
    have "r_mediaId result = mediaId"
      using s Inr updateSingleSimulation_mediaId
      by (auto split: option.splits prod.splits)
    then show ?thesis using res Cons.IH [OF rest] by simp
  qed
qed

lemma updateLoop_step:
  assumes "updateLoop cfg (mediaId # mediaIds) fetched reg w = (results, reg', w')"
  shows "\<exists>entry reg1 w1 rs. results = entry # rs
           \<and> targetOutcome cfg fetched mediaId reg w entry reg1 w1
           \<and> updateLoop cfg mediaIds fetched reg1 w1 = (rs, reg', w')"
proof -
  let ?step = "case find (\<lambda>p. post_id p = mediaId) (rev fetched) of
              None \<Rightarrow> (Inl (PostNotFound mediaId), w)
            | Some post \<Rightarrow>
                (case getSimulation mediaId reg of
                   None \<Rightarrow> (case Date_now w of (now, w') \<Rightarrow> (Inl TypeError, w'))
                 | Some sim \<Rightarrow> updateSingleSimulation cfg mediaId sim (Some post) w)"
  obtain r w1 where s: "?step = (r, w1)" by (cases ?step)
  show ?thesis
  proof (cases r)
    case (Inl e)
    obtain rs reg1 w2 where rest: "updateLoop cfg mediaIds fetched reg w1 = (rs, reg1, w2)"
      by (cases "updateLoop cfg mediaIds fetched reg w1")
    then have res: "results = Failure mediaId e # rs" "reg1 = reg'" "w2 = w'"
      using assms s Inl by simp_all
    have "targetOutcome cfg fetched mediaId reg w (Failure mediaId e) reg w1"
      using s Inl by (auto simp: targetOutcome_def split: option.splits prod.splits)
    then show ?thesis using res rest by blast
  next
    case (Inr result)
    let ?reg1 = "if isComplete result then snd (stopSimulation mediaId reg) else reg"
    obtain rs reg2 w2 where rest: "updateLoop cfg mediaIds fetched ?reg1 w1 = (rs, reg2, w2)"
      by (cases "updateLoop cfg mediaIds fetched ?reg1 w1")
    then have res: "results = result # rs" "reg2 = reg'" "w2 = w'"
      using assms s Inr by (simp_all add: Let_def)
    have "targetOutcome cfg fetched mediaId reg w result ?reg1 w1"
      using s Inr by (auto simp: targetOutcome_def split: option.splits prod.splits)
    then show ?thesis using res rest by blast
  qed
qed

lemma updateLoop_entries:
  "updateLoop cfg ids fetched reg w = (results, reg', w') \<Longrightarrow>
     \<exists>regs ws. length results = length ids
        \<and> regs 0 = reg \<and> ws 0 = w \<and> regs (length ids) = reg' \<and> ws (length ids) = w'
        \<and> (\<forall>i < length ids. targetOutcome cfg fetched (ids ! i) (regs i) (ws i) (results ! i)
                                (regs (Suc i)) (ws (Suc i)))"
proof (induction ids arbitrary: reg w results)
  case Nil
  then have "results = []" "reg' = reg" "w' = w" by simp_all
  then show ?case
    by (intro exI [of _ "\<lambda>_. reg"] exI [of _ "\<lambda>_. w"]) simp
next
  case (Cons mediaId mediaIds)
  from updateLoop_step [OF Cons.prems] obtain entry reg1 w1 rs where
    res: "results = entry # rs"
    and out: "targetOutcome cfg fetched mediaId reg w entry reg1 w1"
    and rest: "updateLoop cfg mediaIds fetched reg1 w1 = (rs, reg', w')"
    by blast
  from Cons.IH [OF rest] obtain regs ws where
    len: "length rs = length mediaIds"
    and ends: "regs 0 = reg1" "ws 0 = w1" "regs (length mediaIds) = reg'" "ws (length mediaIds) = w'"
    and all: "\<forall>i < length mediaIds. targetOutcome cfg fetched (mediaIds ! i) (regs i) (ws i)
                 (rs ! i) (regs (Suc i)) (ws (Suc i))"
    by blast
  let ?regs = "\<lambda>n. case n of 0 \<Rightarrow> reg | Suc k \<Rightarrow> regs k"
  let ?ws = "\<lambda>n. case n of 0 \<Rightarrow> w | Suc k \<Rightarrow> ws k"
  have "\<forall>i < length (mediaId # mediaIds).
          targetOutcome cfg fetched ((mediaId # mediaIds) ! i) (?regs i) (?ws i) (results ! i)
            (?regs (Suc i)) (?ws (Suc i))"
  proof (intro allI impI)
    fix i assume i: "i < length (mediaId # mediaIds)"
    show "targetOutcome cfg fetched ((mediaId # mediaIds) ! i) (?regs i) (?ws i) (results ! i)
            (?regs (Suc i)) (?ws (Suc i))"
    proof (cases i)
      case 0
      then show ?thesis using out ends res by simp
    next
      case (Suc k)
      then have "k < length mediaIds" using i by simp
      then show ?thesis using all Suc res by simp
    qed
  qed
  moreover have "length results = length (mediaId # mediaIds)" using res len by simp
  moreover have "?regs 0 = reg" "?ws 0 = w" by simp_all
  moreover have "?regs (length (mediaId # mediaIds)) = reg'" "?ws (length (mediaId # mediaIds)) = w'"
    using ends by simp_all
  ultimately show ?case by blast
qed

text \<open>
  C3 (amended). When the batch read of the posts is answered (or no simulation is
  active), updateSimulations returns a result list with one entry per target that was
  active when the pass began, in the order of the registry. The targets are processed
  one after the other, each in the world and with the registry the preceding ones left:
  the entry of a target is a failure naming the target and the error when its post was
  not fetched or its update (or its transaction) raised, and otherwise the result
  updateSingleSimulation returned for it; a failure of one target does not keep the
  following ones from being processed. A rejection of the batch read itself, which is
  outside the try block, is thrown to the caller.
\<close>

theorem C3_one_entry_per_active_target:
  assumes "reg = [] \<or> \<not> dbFails w 0"
  shows "\<exists>results reg' w' fetched regs ws.
           updateSimulations cfg reg w = (Inr results, reg', w')
           \<and> map r_mediaId results = getActiveSimulationIds reg
           \<and> (reg \<noteq> [] \<longrightarrow> Post_findAll_in (getActiveSimulationIds reg) w = (Inr fetched, ws 0))
           \<and> regs 0 = reg \<and> regs (length reg) = reg' \<and> ws (length reg) = w'
           \<and> (\<forall>i < length reg.
                 targetOutcome cfg fetched (getActiveSimulationIds reg ! i) (regs i) (ws i)
                   (results ! i) (regs (Suc i)) (ws (Suc i)))"
proof (cases "reg = []")
  case True
  then have "updateSimulations cfg reg w = (Inr [], reg, w)"
    by (simp add: updateSimulations_def getActiveSimulationIds_def)
  then show ?thesis
    using True
    by (intro exI [of _ "[]"] exI [of _ reg] exI [of _ w] exI [of _ "\<lambda>_. reg"] exI [of _ "\<lambda>_. w"])
       (simp add: getActiveSimulationIds_def)
next
  case False
  then have nf: "\<not> dbFails w 0" using assms by simp
  let ?ids = "getActiveSimulationIds reg"
  have ne: "length ?ids \<noteq> 0" using False by (simp add: getActiveSimulationIds_def)
  have li: "length ?ids = length reg" by (simp add: getActiveSimulationIds_def)
  obtain fetched w1 where f: "Post_findAll_in ?ids w = (Inr fetched, w1)"
    using nf by (simp add: Post_findAll_in_def db_call_def)
  obtain results reg' w' where l: "updateLoop cfg ?ids fetched reg w1 = (results, reg', w')"
    by (cases "updateLoop cfg ?ids fetched reg w1")
  have u: "updateSimulations cfg reg w = (Inr results, reg', w')"
    using ne f l by (simp add: updateSimulations_def Let_def)
  from updateLoop_entries [OF l] obtain regs ws where
    "regs 0 = reg" "ws 0 = w1" "regs (length ?ids) = reg'" "ws (length ?ids) = w'"
    "\<forall>i < length ?ids. targetOutcome cfg fetched (?ids ! i) (regs i) (ws i) (results ! i)
        (regs (Suc i)) (ws (Suc i))"
    by blast
  then show ?thesis
    using u f updateLoop_ids [OF l] unfolding li by blast
qed

text \<open>With an active simulation and a store that rejects the batch read, the pass throws.\<close>

theorem C3_counterexample:
  "fst (updateSimulations hardcodedConfig twoTargetRegistry batchReadFailsWorld)
     = Inl DatabaseError"
  by (simp add: updateSimulations_def getActiveSimulationIds_def twoTargetRegistry_def
        Post_findAll_in_def db_call_def batchReadFailsWorld_def exampleWorld_def Let_def)

lemma twoTarget_results:
  "fst (updateSimulations hardcodedConfig twoTargetRegistry atTargetWorld)
     = Inr [Failure 7 (PostNotFound 7), Update 1 (Num 120) (Num 6) (Num 50) (Num 0) (Num 0)]"
  by (simp add: updateSimulations_def getActiveSimulationIds_def getSimulation_def
        twoTargetRegistry_def Post_findAll_in_def db_call_def eval_defs atTargetWorld_def
        atTargetPost_def)

lemma atTarget_fetch:
  "Post_findAll_in (getActiveSimulationIds twoTargetRegistry) atTargetWorld
     = (Inr [atTargetPost], snd (db_call atTargetWorld))"
  by (simp add: Post_findAll_in_def db_call_def getActiveSimulationIds_def twoTargetRegistry_def
        atTargetWorld_def atTargetPost_def exampleWorld_def examplePost_def)

lemma atTarget_update:
  "fst (updateSingleSimulation hardcodedConfig 1 exampleSimulation (Some atTargetPost)
          (snd (db_call atTargetWorld)))
     = Inr (Update 1 (Num 120) (Num 6) (Num 50) (Num 0) (Num 0))"
  by (simp add: eval_defs atTargetWorld_def atTargetPost_def)

theorem C3_witness:
  "(twoTargetRegistry = [] \<or> \<not> dbFails atTargetWorld 0)
   \<and> fst (updateSimulations hardcodedConfig twoTargetRegistry atTargetWorld)
       = Inr [Failure 7 (PostNotFound 7), Update 1 (Num 120) (Num 6) (Num 50) (Num 0) (Num 0)]
   \<and> map r_mediaId [Failure 7 (PostNotFound 7), Update 1 (Num 120) (Num 6) (Num 50) (Num 0) (Num 0)]
       = getActiveSimulationIds twoTargetRegistry
   \<and> find (\<lambda>p. post_id p = 7) (rev [atTargetPost]) = None
   \<and> fst (updateSingleSimulation hardcodedConfig 1 exampleSimulation (Some atTargetPost)
            (snd (db_call atTargetWorld)))
       = Inr (Update 1 (Num 120) (Num 6) (Num 50) (Num 0) (Num 0))"
proof -
  have h: "twoTargetRegistry = [] \<or> \<not> dbFails atTargetWorld 0"
    by (simp add: atTargetWorld_def exampleWorld_def)
  have ne: "twoTargetRegistry \<noteq> []" and len: "length twoTargetRegistry = 2"
    and idl: "getActiveSimulationIds twoTargetRegistry = [7, 1]"
    by (simp_all add: twoTargetRegistry_def getActiveSimulationIds_def)
  from C3_one_entry_per_active_target [OF h, of hardcodedConfig]
  obtain results reg' w' fetched regs ws where
    u: "updateSimulations hardcodedConfig twoTargetRegistry atTargetWorld = (Inr results, reg', w')"
    and ids: "map r_mediaId results = getActiveSimulationIds twoTargetRegistry"
    and f: "twoTargetRegistry \<noteq> [] \<longrightarrow>
              Post_findAll_in (getActiveSimulationIds twoTargetRegistry) atTargetWorld
                = (Inr fetched, ws 0)"
    and r0: "regs 0 = twoTargetRegistry"
    and all: "\<forall>i < length twoTargetRegistry.
                targetOutcome hardcodedConfig fetched (getActiveSimulationIds twoTargetRegistry ! i)
                  (regs i) (ws i) (results ! i) (regs (Suc i)) (ws (Suc i))"
    by blast
  have fe: "fetched = [atTargetPost]" and w0: "ws 0 = snd (db_call atTargetWorld)"
    using f ne atTarget_fetch by simp_all
  have nf: "find (\<lambda>p. post_id p = 7) (rev [atTargetPost]) = None"
    by (simp add: atTargetPost_def examplePost_def)
  have "targetOutcome hardcodedConfig [atTargetPost] 7 twoTargetRegistry (snd (db_call atTargetWorld))
          (results ! 0) (regs (Suc 0)) (ws (Suc 0))"
    using all [rule_format, of 0] by (simp add: len idl fe w0 r0)
  then have e0: "results ! 0 = Failure 7 (PostNotFound 7)"
    and r1: "regs (Suc 0) = twoTargetRegistry" and w1: "ws (Suc 0) = snd (db_call atTargetWorld)"
    by (simp_all add: targetOutcome_def atTargetPost_def examplePost_def)
  have gs: "getSimulation 1 twoTargetRegistry = Some exampleSimulation"
    by (simp add: getSimulation_def twoTargetRegistry_def)
  have "targetOutcome hardcodedConfig [atTargetPost] 1 twoTargetRegistry (snd (db_call atTargetWorld))
          (results ! 1) (regs (Suc 1)) (ws (Suc 1))"
    using all [rule_format, of 1] by (simp add: len idl fe r1 w1)
  moreover have pid: "post_id atTargetPost = 1"
    by (simp add: atTargetPost_def examplePost_def)
  moreover obtain wn where
    "updateSingleSimulation hardcodedConfig 1 exampleSimulation (Some atTargetPost)
       (snd (db_call atTargetWorld))
     = (Inr (Update 1 (Num 120) (Num 6) (Num 50) (Num 0) (Num 0)), wn)"
    using atTarget_update
    by (cases "updateSingleSimulation hardcodedConfig 1 exampleSimulation (Some atTargetPost)
                 (snd (db_call atTargetWorld))") simp
  ultimately have e1: "results ! 1 = Update 1 (Num 120) (Num 6) (Num 50) (Num 0) (Num 0)"
    by (simp add: targetOutcome_def gs)
  have "length results = 2" using ids idl by (metis length_map length_Cons list.size(3) numeral_2_eq_2)
  then have "results = [results ! 0, results ! 1]"
    by (auto simp: list_eq_iff_nth_eq less_Suc_eq numeral_2_eq_2)
  then have "results = [Failure 7 (PostNotFound 7), Update 1 (Num 120) (Num 6) (Num 50) (Num 0) (Num 0)]"
    using e0 e1 by simp
  then show ?thesis
    using h u idl nf atTarget_update by simp
qed

section \<open>Properties of starting a simulation\<close>

lemma map_of_Map_set: "map_of (Map_set k v m) k = Some v"
  by (induction m) auto

text \<open>
  C4 (amended). startViralSimulation checks only that the target post exists. When the
  store answers and the post exists it registers the simulation under the target id for
  every growth parameters, with the curve, the duration and the like ratio of the config
  (the defaults when absent), the maximum views of the config, the maximum likes of the
  config (when absent or 0, the maximum views times the default like ratio, rounded
  down) and the post's counters as initial values; when the post does not exist it
  signals that the target media was not found and registers nothing.
\<close>

theorem C4_start_checks_only_the_target:
  assumes "\<not> dbFails w 0"
  shows "(\<forall>targetPost. find (\<lambda>p. post_id p = c_targetMediaId config) (posts (tables w))
                          = Some targetPost \<longrightarrow>
            (\<exists>sim reg' w'. startViralSimulation cfg config reg w = (Inr sim, reg', w')
               \<and> getSimulation (c_targetMediaId config) reg' = Some sim
               \<and> growthCurve sim = (case c_growthCurve config of
                                       None \<Rightarrow> defaultGrowthCurve cfg | Some x \<Rightarrow> x)
               \<and> growthDurationHours sim = (case c_growthDurationHours config of
                                       None \<Rightarrow> defaultGrowthDurationHours cfg | Some x \<Rightarrow> x)
               \<and> likeRatio sim = (case c_likeRatio config of
                                       None \<Rightarrow> defaultLikeRatio cfg | Some x \<Rightarrow> x)
               \<and> maxViews sim = c_maxViews config
               \<and> maxLikes sim = or_default (c_maxLikes config)
                                  (real_of_int \<lfloor>c_maxViews config * defaultLikeRatio cfg\<rfloor>)
               \<and> initialViews sim = viewCount targetPost
               \<and> initialLikes sim = likeCount targetPost))
       \<and> (find (\<lambda>p. post_id p = c_targetMediaId config) (posts (tables w)) = None \<longrightarrow>
            (\<exists>w'. startViralSimulation cfg config reg w
                     = (Inl (TargetMediaNotFound (c_targetMediaId config)), reg, w')))"
  using assms
  by (auto simp: startViralSimulation_def startSimulation_def Post_findByPk_def db_call_def
        Date_now_def getSimulation_def map_of_Map_set Let_def
      split: option.splits)


text \<open>
  What the exponential curve computes from a post with no views over a positive
  duration: the ratio maxViews / 0 is infinite and the product 0 * Infinity is NaN, so
  the targets are NaN, no comparison with them holds and the simulation never changes a
  counter. Over a negative duration the growth rate is minus infinity and the curve
  gives 0; and a simulation whose duration is not positive is complete at its first
  update, whatever its curve.
\<close>

lemma calculateExponentialViews_from_zero:
  assumes "0 < maxV" and "0 < durationHours" and "0 \<le> elapsedHours"
  shows "calculateExponentialViews elapsedHours durationHours maxV 0 = NaN"
  using assms by (simp add: calculateExponentialViews_def)

lemma calculateExponentialViews_from_zero_negative_duration:
  assumes "0 < maxV" and "durationHours < 0" and "0 < elapsedHours"
  shows "calculateExponentialViews elapsedHours durationHours maxV 0 = Num 0"
  using assms by (simp add: calculateExponentialViews_def)

lemma nonpositive_duration_completes:
  assumes "growthDurationHours sim \<le> 0" and "startTime sim \<le> clock w 0"
  shows "fst (updateSingleSimulation cfg mediaId sim preloadedPost w) = Inr (Completion mediaId)"
proof -
  have "0 \<le> (clock w 0 - startTime sim) / (1000 * 60 * 60)"
    using assms(2) by simp
  then have "growthDurationHours sim \<le> (clock w 0 - startTime sim) / (1000 * 60 * 60)"
    using assms(1) by linarith
  then show ?thesis
    by (simp add: updateSingleSimulation_def isSimulationComplete_def Date_now_def Let_def)
qed

text \<open>
  An exponential curve from a post with no views, over a negative duration: the
  simulation is registered.
\<close>

theorem C4_counterexample:
  "map (\<lambda>kv. (fst kv, growthCurve (snd kv), growthDurationHours (snd kv), initialViews (snd kv)))
       (fst (snd (startViralSimulation hardcodedConfig exponentialFromZeroConfig [] noViewsWorld)))
     = [(1, ''exponential'', - 5, 0)]
   \<and> isl (fst (startViralSimulation hardcodedConfig exponentialFromZeroConfig [] noViewsWorld))
       = False"
  by (simp add: startViralSimulation_def startSimulation_def Post_findByPk_def db_call_def
        Date_now_def exponentialFromZeroConfig_def noViewsWorld_def exampleWorld_def
        examplePost_def hardcodedConfig_def or_default_def Let_def)

theorem C4_witness:
  "\<not> dbFails noViewsWorld 0
   \<and> find (\<lambda>p. post_id p = c_targetMediaId exponentialFromZeroConfig) (posts (tables noViewsWorld))
       = Some (examplePost\<lparr>viewCount := 0, likeCount := 0\<rparr>)
   \<and> (\<exists>sim reg' w'. startViralSimulation hardcodedConfig exponentialFromZeroConfig [] noViewsWorld
                        = (Inr sim, reg', w')
         \<and> getSimulation 1 reg' = Some sim \<and> growthCurve sim = ''exponential''
         \<and> likeRatio sim = 5 / 100 \<and> initialViews sim = 0)"
proof -
  have h: "\<not> dbFails noViewsWorld 0"
    by (simp add: noViewsWorld_def exampleWorld_def)
  have f: "find (\<lambda>p. post_id p = c_targetMediaId exponentialFromZeroConfig)
             (posts (tables noViewsWorld)) = Some (examplePost\<lparr>viewCount := 0, likeCount := 0\<rparr>)"
    by (simp add: noViewsWorld_def exampleWorld_def exponentialFromZeroConfig_def examplePost_def)
  from C4_start_checks_only_the_target [OF h, of exponentialFromZeroConfig hardcodedConfig "[]"] f
  obtain sim reg' w' where
    "startViralSimulation hardcodedConfig exponentialFromZeroConfig [] noViewsWorld = (Inr sim, reg', w')"
    "getSimulation (c_targetMediaId exponentialFromZeroConfig) reg' = Some sim"
    "growthCurve sim = (case c_growthCurve exponentialFromZeroConfig of
                          None \<Rightarrow> defaultGrowthCurve hardcodedConfig | Some x \<Rightarrow> x)"
    "likeRatio sim = (case c_likeRatio exponentialFromZeroConfig of
                          None \<Rightarrow> defaultLikeRatio hardcodedConfig | Some x \<Rightarrow> x)"
    "initialViews sim = viewCount (examplePost\<lparr>viewCount := 0, likeCount := 0\<rparr>)"
    by blast
  then show ?thesis
    using h f by (auto simp: exponentialFromZeroConfig_def hardcodedConfig_def)
qed

section \<open>The earlier service and the data generator\<close>

text \<open>
  The generators of the earlier service are those of DataGenerator with the constants of
  \<open>hardcodedConfig\<close>, so what is proved of the latter holds of the former.
\<close>

lemma buildViewRecords_v1_eq:
  "buildViewRecords_v1 postId userIds i n w = buildViewRecords hardcodedConfig postId userIds i n w"
  by (induction n arbitrary: i w) (simp_all add: hardcodedConfig_def)

lemma insertViewBatches_v1_eq:
  "insertViewBatches_v1 i viewRecords w = insertViewBatches i viewRecords w"
proof (induction i viewRecords w rule: insertViewBatches.induct)
  case (1 i viewRecords w)
  show ?case
  proof (cases "i < length viewRecords")
    case False
    then show ?thesis
      by (simp add: insertViewBatches.simps insertViewBatches_v1.simps)
  next
    case True
    obtain r1 w1 where b: "View_bulkCreate (take bulkInsertBatchSize (drop i viewRecords)) w = (r1, w1)"
      by (cases "View_bulkCreate (take bulkInsertBatchSize (drop i viewRecords)) w")
    show ?thesis
    proof (cases r1)
      case (Inl e)
      then show ?thesis using True b
        by (subst insertViewBatches.simps, subst insertViewBatches_v1.simps)
           (simp add: bulkInsertBatchSize_def)
    next
      case (Inr u)
      have "insertViewBatches_v1 (i + bulkInsertBatchSize) viewRecords w1
            = insertViewBatches (i + bulkInsertBatchSize) viewRecords w1"
        using "1.IH" [OF True b [symmetric] Inr] .
      then show ?thesis using True b Inr
        by (subst insertViewBatches.simps, subst insertViewBatches_v1.simps)
           (simp add: bulkInsertBatchSize_def)
    qed
  qed
qed

lemma generateSyntheticViews_v1_eq:
  "generateSyntheticViews_v1 postId cnt w = generateSyntheticViews hardcodedConfig postId cnt w"
proof -
  have "maxBotUsersPerBatch hardcodedConfig = 50"
    by (simp add: hardcodedConfig_def)
  then show ?thesis
    by (simp add: generateSyntheticViews_v1_def generateSyntheticViews_def selectViewers_def
          buildViewRecords_v1_eq insertViewBatches_v1_eq Let_def
        split: prod.splits sum.splits)
qed

lemma generateSyntheticLikes_v1_eq:
  "generateSyntheticLikes_v1 postId cnt w =
     andThen (Like_findAll_post postId w) (\<lambda>existingLikes w0.
       case generateSyntheticLikes postId cnt (set (map l_userId existingLikes)) w0 of
         (Inl e, w') \<Rightarrow> (Inl e, w')
       | (Inr n, w') \<Rightarrow> (Inr (), w'))"
  by (auto simp: generateSyntheticLikes_v1_def generateSyntheticLikes_def selectLikers_def
        andThen_def Like_bulkCreate_def Let_def
      split: prod.splits sum.splits if_splits)

end
